theory Spec2Isabelle
  imports Complex_Main "HOL-Library.Sublist"
begin

section \<open>Errors\<close>

text \<open>
  One constructor for each place where the code, or a library function it calls, returns
  a non-nil \<^verbatim>\<open>error\<close>.
\<close>

datatype error =
    FetchFailed
  | BadStatusCode int
  | HTMLParseFailed
  | HeaderNotFound
  | DateNoMatch
  | DateParseFailed
  | NoTideData
  | InvalidTimeFormat
  | AtoiSyntax
  | AtoiRange
  | HeightNoMatch
  | ParseFloatSyntax
  | ParseFloatRange
  | QueryFailed
  | BeginFailed
  | DeleteFailed
  | InsertFailed
  | CommitFailed

section \<open>Go strings\<close>

text \<open>
  A Go string is a sequence of bytes; it is modelled as a \<open>string\<close> (a list of 8-bit
  characters). The texts handled here (alert descriptions, table cells, clock times,
  heights) are ASCII; \<open>ToLower\<close> and \<open>TrimSpace\<close> are modelled on ASCII bytes and leave
  every other byte alone.
\<close>

definition toLowerByte :: "char \<Rightarrow> char" where
  "toLowerByte c =
     (let n = (of_char c :: nat) in if 65 \<le> n \<and> n \<le> 90 then char_of (n + 32) else c)"

text \<open>\<^verbatim>\<open>strings.ToLower\<close>\<close>

definition ToLower :: "string \<Rightarrow> string" where
  "ToLower s = map toLowerByte s"

text \<open>\<^verbatim>\<open>strings.Contains(s, substr)\<close>: \<open>substr\<close> starts at some position of \<open>s\<close>.\<close>

fun Contains :: "string \<Rightarrow> string \<Rightarrow> bool" where
  "Contains [] substr = (substr = [])"
| "Contains (c # cs) substr = (prefix substr (c # cs) \<or> Contains cs substr)"

text \<open>
  \<^verbatim>\<open>strings.Split(s, sep)\<close> for a separator of one byte: the pieces between the
  separators, one more than there are separators.
\<close>

fun Split :: "string \<Rightarrow> char \<Rightarrow> string list" where
  "Split [] sep = [[]]"
| "Split (c # cs) sep =
     (if c = sep then [] # Split cs sep
      else (case Split cs sep of [] \<Rightarrow> [[c]] | p # ps \<Rightarrow> (c # p) # ps))"

text \<open>\<^verbatim>\<open>strings.TrimSpace\<close>: the ASCII white space is tab, LF, VT, FF, CR and space.\<close>

definition isAsciiSpace :: "char \<Rightarrow> bool" where
  "isAsciiSpace c \<longleftrightarrow> c \<in> {CHR 0x09, CHR 0x0A, CHR 0x0B, CHR 0x0C, CHR 0x0D, CHR '' ''}"

definition TrimSpace :: "string \<Rightarrow> string" where
  "TrimSpace s = rev (dropWhile isAsciiSpace (rev (dropWhile isAsciiSpace s)))"

definition isDigit :: "char \<Rightarrow> bool" where
  "isDigit c \<longleftrightarrow> c \<in> set ''0123456789''"

definition digitVal :: "char \<Rightarrow> int" where
  "digitVal c = of_char c - 48"

section \<open>Go's \<^verbatim>\<open>regexp\<close> package, for the two patterns of the fetcher\<close>

text \<open>
  Both patterns are sequences of literal bytes, an optional byte (\<^verbatim>\<open>-?\<close>), greedy
  repetitions of a character class (\<^verbatim>\<open>+\<close> and \<^verbatim>\<open>*\<close>) and capture groups around runs of
  these. A pattern is a list of atoms; \<open>Mark\<close> stands at each parenthesis of a capture
  group. The classes are Go's: \<^verbatim>\<open>\d\<close> is \<open>[0-9]\<close>, \<^verbatim>\<open>\s\<close> is \<open>[\t\n\f\r ]\<close>, \<^verbatim>\<open>\w\<close> is
  \<open>[0-9A-Za-z_]\<close>.
\<close>

datatype atom = Lit char | Opt char | Plus "char \<Rightarrow> bool" | Star "char \<Rightarrow> bool" | Mark

definition isSpace :: "char \<Rightarrow> bool" where
  "isSpace c \<longleftrightarrow> c \<in> {CHR 0x09, CHR 0x0A, CHR 0x0C, CHR 0x0D, CHR '' ''}"

definition isWord :: "char \<Rightarrow> bool" where
  "isWord c \<longleftrightarrow>
     c \<in> set ''0123456789ABCDEFGHIJKLMNOPQRSTUVWXYZ_abcdefghijklmnopqrstuvwxyz''"

text \<open>\<^verbatim>\<open>[\d.]\<close>\<close>

definition isNumChar :: "char \<Rightarrow> bool" where
  "isNumChar c \<longleftrightarrow> isDigit c \<or> c = CHR ''.''"

fun firstSome :: "('a \<Rightarrow> 'b option) \<Rightarrow> 'a list \<Rightarrow> 'b option" where
  "firstSome f [] = None"
| "firstSome f (x # xs) = (case f x of Some y \<Rightarrow> Some y | None \<Rightarrow> firstSome f xs)"

text \<open>
  \<open>rmatch re s\<close> matches the pattern at the start of \<open>s\<close>, preferring at each choice what
  Go's leftmost-first semantics prefers: an optional byte is taken when it can be, a
  repetition takes the longest run first and gives bytes back one at a time. The result
  is the unmatched rest of \<open>s\<close> and, for each \<open>Mark\<close>, the text that was still unread there.
\<close>

fun rmatch :: "atom list \<Rightarrow> string \<Rightarrow> (string \<times> string list) option" where
  "rmatch [] s = Some (s, [])"
| "rmatch (Lit c # as) s =
     (case s of [] \<Rightarrow> None | x # xs \<Rightarrow> if x = c then rmatch as xs else None)"
| "rmatch (Opt c # as) s =
     (case (case s of [] \<Rightarrow> None | x # xs \<Rightarrow> if x = c then rmatch as xs else None) of
        Some r \<Rightarrow> Some r
      | None \<Rightarrow> rmatch as s)"
| "rmatch (Plus cls # as) s =
     firstSome (\<lambda>n. rmatch as (drop n s)) (rev [1..<Suc (length (takeWhile cls s))])"
| "rmatch (Star cls # as) s =
     firstSome (\<lambda>n. rmatch as (drop n s)) (rev [0..<Suc (length (takeWhile cls s))])"
| "rmatch (Mark # as) s =
     (case rmatch as s of None \<Rightarrow> None | Some (r, ms) \<Rightarrow> Some (r, s # ms))"

text \<open>The leftmost position at which the pattern matches.\<close>

fun findFrom :: "atom list \<Rightarrow> string \<Rightarrow> (string \<times> string \<times> string list) option" where
  "findFrom re [] = (case rmatch re [] of None \<Rightarrow> None | Some (r, ms) \<Rightarrow> Some ([], r, ms))"
| "findFrom re (c # cs) =
     (case rmatch re (c # cs) of
        None \<Rightarrow> findFrom re cs
      | Some (r, ms) \<Rightarrow> Some (c # cs, r, ms))"

text \<open>The text read between two points, each given by what was still unread there.\<close>

definition between :: "string \<Rightarrow> string \<Rightarrow> string" where
  "between a b = take (length a - length b) a"

fun groups :: "string list \<Rightarrow> string list" where
  "groups (a # b # ms) = between a b # groups ms"
| "groups ms = []"

text \<open>
  \<^verbatim>\<open>re.FindStringSubmatch(s)\<close>: the whole match followed by the capture groups, or the
  empty (nil) slice when there is no match.
\<close>

definition FindStringSubmatch :: "atom list \<Rightarrow> string \<Rightarrow> string list" where
  "FindStringSubmatch re s =
     (case findFrom re s of
        None \<Rightarrow> []
      | Some (start, r, ms) \<Rightarrow> between start r # groups ms)"

section \<open>Go's \<^verbatim>\<open>strconv\<close> package\<close>

text \<open>
  \<^verbatim>\<open>strconv.ParseUint(s, 10, 64)\<close>: the digits are read from the left; a byte that is not
  a digit is a syntax error, a value past \<open>2^64 - 1\<close> a range error, whichever comes
  first.
\<close>

fun parseUintFrom :: "int \<Rightarrow> string \<Rightarrow> error + int" where
  "parseUintFrom n [] = Inr n"
| "parseUintFrom n (c # cs) =
     (if \<not> isDigit c then Inl AtoiSyntax
      else if n \<ge> 1844674407370955162 then Inl AtoiRange
      else let n1 = n * 10 + digitVal c in
        if n1 > 18446744073709551615 then Inl AtoiRange
        else parseUintFrom n1 cs)"

definition ParseUint :: "string \<Rightarrow> error + int" where
  "ParseUint s = (if s = [] then Inl AtoiSyntax else parseUintFrom 0 s)"

text \<open>
  \<^verbatim>\<open>strconv.Atoi(s)\<close> where \<^verbatim>\<open>int\<close> has 64 bits (the build targets amd64): an optional
  sign, then \<^verbatim>\<open>ParseUint\<close>, then the range of \<^verbatim>\<open>int64\<close>. Its fast path for short strings
  computes the same.
\<close>

definition Atoi :: "string \<Rightarrow> error + int" where
  "Atoi s =
     (case s of
        [] \<Rightarrow> Inl AtoiSyntax
      | c # cs \<Rightarrow>
          let neg = (c = CHR ''-'');
              digits = (if c = CHR ''+'' \<or> c = CHR ''-'' then cs else s)
          in (case ParseUint digits of
                Inl e \<Rightarrow> Inl e
              | Inr un \<Rightarrow>
                  if \<not> neg \<and> un \<ge> 9223372036854775808 then Inl AtoiRange
                  else if neg \<and> un > 9223372036854775808 then Inl AtoiRange
                  else Inr (if neg then - un else un)))"

fun digitsVal :: "int \<Rightarrow> string \<Rightarrow> int" where
  "digitsVal n [] = n"
| "digitsVal n (c # cs) = digitsVal (n * 10 + digitVal c) cs"

text \<open>
  \<^verbatim>\<open>strconv.ParseFloat(s, 64)\<close> on decimal numerals without exponent: an optional sign,
  digits with at most one point, at least one digit. \<open>parseHeight\<close> passes it nothing
  else: a capture of \<^verbatim>\<open>-?[\d.]+\<close> holds digits, points and a leading minus only, so the
  exponents, hexadecimal forms, underscores, infinities and NaNs that Go also reads are
  left out, and any other byte is a syntax error. The value is the rational the numeral
  denotes; Go returns the nearest \<^verbatim>\<open>float64\<close>, and a range error when that rounding
  overflows, which is from \<open>2^1024 - 2^970\<close> on.
\<close>

definition ParseFloat :: "string \<Rightarrow> error + rat" where
  "ParseFloat s =
     (let neg = (s \<noteq> [] \<and> hd s = CHR ''-'');
          body = (if s \<noteq> [] \<and> (hd s = CHR ''+'' \<or> hd s = CHR ''-'') then tl s else s);
          ip = takeWhile isDigit body;
          r1 = dropWhile isDigit body;
          sawdot = (r1 \<noteq> [] \<and> hd r1 = CHR ''.'');
          fp = (if sawdot then takeWhile isDigit (tl r1) else []);
          r2 = (if sawdot then dropWhile isDigit (tl r1) else r1)
      in if ip = [] \<and> fp = [] then Inl ParseFloatSyntax
         else if r2 \<noteq> [] then Inl ParseFloatSyntax
         else let mant = digitsVal 0 (ip @ fp) in
           if mant \<ge> (2 ^ 1024 - 2 ^ 970) * 10 ^ length fp then Inl ParseFloatRange
           else let v = of_int mant / 10 ^ length fp in Inr (if neg then - v else v))"

section \<open>Go's \<^verbatim>\<open>time\<close> package\<close>

text \<open>
  A \<^verbatim>\<open>time.Time\<close> is an instant together with a \<^verbatim>\<open>Location\<close>. The instant is the
  number of nanoseconds since the Unix epoch (type \<open>time\<close>): \<^verbatim>\<open>Before\<close> and \<^verbatim>\<open>After\<close>
  are the order of \<open>int\<close> on it, and \<^verbatim>\<open>Add\<close> is addition of a \<^verbatim>\<open>time.Duration\<close>
  (nanoseconds). The fetcher builds every \<^verbatim>\<open>Time\<close> in \<^verbatim>\<open>wibTimezone\<close>, so there the
  instant alone is kept. Where the location matters, in the text the store keeps of a
  \<^verbatim>\<open>Time\<close>, the \<^verbatim>\<open>Time\<close> is kept whole (record \<open>Time\<close> below).
\<close>

type_synonym time = int

definition Hour :: int where
  "Hour = 3600 * 1000000000"

text \<open>
  \<^verbatim>\<open>time.Date(year, month, day, hour, min, sec, nsec, loc)\<close> for a location with a fixed
  offset (seconds east of UTC), as documented: values outside their usual ranges are
  normalised, each overflowing into the next larger unit (\<open>norm\<close>), and the result is
  the instant of that civil time. Go computes it in 64-bit arithmetic, which gives this
  number as long as no intermediate value overflows: for every year of four digits and
  clock fields below \<open>10^12\<close> in absolute value it does. \<open>daysSinceEpoch year\<close> counts the days from 1970-01-01 to
  January 1 of \<open>year\<close> in the proleptic Gregorian calendar.
\<close>

definition norm :: "int \<Rightarrow> int \<Rightarrow> int \<Rightarrow> int \<times> int" where
  "norm hi lo base = (hi + lo div base, lo mod base)"

definition isLeap :: "int \<Rightarrow> bool" where
  "isLeap year \<longleftrightarrow> year mod 4 = 0 \<and> (year mod 100 \<noteq> 0 \<or> year mod 400 = 0)"

definition daysBefore :: "int list" where
  "daysBefore = [0, 31, 59, 90, 120, 151, 181, 212, 243, 273, 304, 334, 365]"

definition daysSinceEpoch :: "int \<Rightarrow> int" where
  "daysSinceEpoch year =
     (let y = year - 1 in 365 * y + y div 4 - y div 100 + y div 400 - 719162)"

definition timeDate ::
  "int \<Rightarrow> int \<Rightarrow> int \<Rightarrow> int \<Rightarrow> int \<Rightarrow> int \<Rightarrow> int \<Rightarrow> int \<Rightarrow> time" where
  "timeDate year month day hour minute sec nsec offset =
     (let (year, m) = norm year (month - 1) 12;
          month = m + 1;
          (sec, nsec) = norm sec nsec 1000000000;
          (minute, sec) = norm minute sec 60;
          (hour, minute) = norm hour minute 60;
          (day, hour) = norm day hour 24;
          d = daysSinceEpoch year + daysBefore ! nat (month - 1)
              + (if isLeap year \<and> month \<ge> 3 then 1 else 0) + (day - 1);
          unix = d * 86400 + hour * 3600 + minute * 60 + sec - offset
      in unix * 1000000000 + nsec)"

text \<open>
  A \<^verbatim>\<open>time.Time\<close> that the code reads back through \<^verbatim>\<open>Year()\<close>, \<^verbatim>\<open>Month()\<close>, \<^verbatim>\<open>Day()\<close>
  and \<^verbatim>\<open>Hour()\<close> is kept as that reading in its own location: the wall clock.
\<close>

record clock =
  cYear :: int
  cMonth :: int
  cDay :: int
  cHour :: int
  cMinute :: int
  cSecond :: int
  cNsec :: int

text \<open>A reading a wall clock can show: hour, minute, second and nanosecond in range.\<close>

definition validClock :: "clock \<Rightarrow> bool" where
  "validClock c \<longleftrightarrow> 0 \<le> cHour c \<and> cHour c < 24 \<and> 0 \<le> cMinute c \<and> cMinute c < 60 \<and>
     0 \<le> cSecond c \<and> cSecond c < 60 \<and> 0 \<le> cNsec c \<and> cNsec c < 1000000000"

text \<open>
  \<^verbatim>\<open>time.ParseInLocation("January 2, 2006", value, loc)\<close>, step by step as \<^verbatim>\<open>time.Parse\<close>
  walks this layout: the full month name, matched without regard to ASCII case
  (\<open>lookup\<close>); a space of the layout, which stands for any run of spaces; a day of one
  or two digits; a comma and spaces; a year of exactly four digits; nothing after it;
  and at the end the day must exist in that month. The result is the civil date.
\<close>

definition longMonthNames :: "string list" where
  "longMonthNames = [''January'', ''February'', ''March'', ''April'', ''May'', ''June'', ''July'',
     ''August'', ''September'', ''October'', ''November'', ''December'']"

fun lookup :: "string list \<Rightarrow> string \<Rightarrow> int \<Rightarrow> (int \<times> string) option" where
  "lookup [] val i = None"
| "lookup (v # tab) val i =
     (if length val \<ge> length v \<and> ToLower (take (length v) val) = ToLower v
      then Some (i, drop (length v) val)
      else lookup tab val (i + 1))"

text \<open>\<^verbatim>\<open>skip(value, " ")\<close>: \<open>None\<close> is \<^verbatim>\<open>errBad\<close>.\<close>

definition skipSpace :: "string \<Rightarrow> string option" where
  "skipSpace val =
     (if val \<noteq> [] \<and> hd val \<noteq> CHR '' '' then None
      else Some (dropWhile (\<lambda>c. c = CHR '' '') val))"

text \<open>\<^verbatim>\<open>getnum(value, false)\<close>: one digit, or two when a second digit follows.\<close>

definition getnum :: "string \<Rightarrow> (int \<times> string) option" where
  "getnum s =
     (case s of
        [] \<Rightarrow> None
      | a # r \<Rightarrow>
          if \<not> isDigit a then None
          else (case r of
                  [] \<Rightarrow> Some (digitVal a, r)
                | b # r' \<Rightarrow>
                    if isDigit b then Some (digitVal a * 10 + digitVal b, r')
                    else Some (digitVal a, r)))"

definition daysIn :: "int \<Rightarrow> int \<Rightarrow> int" where
  "daysIn month year =
     (if month = 2 \<and> isLeap year then 29
      else daysBefore ! nat month - daysBefore ! nat (month - 1))"

definition parseLongDate :: "string \<Rightarrow> (int \<times> int \<times> int) option" where
  "parseLongDate val =
     (case lookup longMonthNames val 1 of
        None \<Rightarrow> None
      | Some (month, v1) \<Rightarrow>
     (case skipSpace v1 of
        None \<Rightarrow> None
      | Some v2 \<Rightarrow>
     (case getnum v2 of
        None \<Rightarrow> None
      | Some (day, v3) \<Rightarrow>
     if v3 = [] \<or> hd v3 \<noteq> CHR '','' then None else
     (case skipSpace (tl v3) of
        None \<Rightarrow> None
      | Some v4 \<Rightarrow>
     if length v4 < 4 \<or> \<not> isDigit (hd v4) then None
     else if \<not> list_all isDigit (take 4 v4) then None
     else if drop 4 v4 \<noteq> [] then None
     else let year = digitsVal 0 (take 4 v4) in
       if day < 1 \<or> day > daysIn month year then None
       else Some (year, month, day)))))"


subsection \<open>A \<^verbatim>\<open>Time\<close> with its location, and its text\<close>

text \<open>
  A \<^verbatim>\<open>time.Time\<close> whose location has a fixed offset: the instant and the offset in
  seconds east of UTC. \<^verbatim>\<open>t.Add(d)\<close> moves the instant and keeps the location;
  \<^verbatim>\<open>t.After(u)\<close> compares instants only.
\<close>

record Time =
  unixNano :: time
  locOffset :: int

definition Add :: "Time \<Rightarrow> int \<Rightarrow> Time" where
  "Add t d = t\<lparr>unixNano := unixNano t + d\<rparr>"

text \<open>
  \<^verbatim>\<open>absDate\<close> of package \<^verbatim>\<open>time\<close>: year, month and day of a day number, counted here
  from January 1 of year 1 (Go counts from a year that differs from it by a multiple of
  400). It cuts off the cycles of 400, 100 and 4 years and then the years, and finds the
  month from the day of the year by an estimate (\<open>day div 31\<close>) that is at most one too
  small.
\<close>

definition absDate :: "int \<Rightarrow> int \<times> int \<times> int" where
  "absDate days =
     (let n400 = days div 146097;
          d = days mod 146097;
          n = d div 36524;
          n100 = n - n div 4;
          d = d - 36524 * n100;
          n4 = d div 1461;
          d = d - 1461 * n4;
          n = d div 365;
          n1 = n - n div 4;
          d = d - 365 * n1;
          year = 400 * n400 + 100 * n100 + 4 * n4 + n1 + 1
      in if isLeap year \<and> d = 31 + 29 - 1 then (year, 2, 29)
         else
           let day = (if isLeap year \<and> d > 31 + 29 - 1 then d - 1 else d);
               month = day div 31;
               monthEnd = daysBefore ! nat (month + 1)
           in if day \<ge> monthEnd then (year, month + 2, day - monthEnd + 1)
              else (year, month + 1, day - daysBefore ! nat month + 1))"

text \<open>
  The wall clock a \<^verbatim>\<open>Time\<close> shows in its own location (\<^verbatim>\<open>Date()\<close>, \<^verbatim>\<open>Clock()\<close>,
  \<^verbatim>\<open>Nanosecond()\<close>). Day 719162 from January 1 of year 1 is 1970-01-01.
\<close>

definition wallClock :: "Time \<Rightarrow> clock" where
  "wallClock t =
     (let unix = unixNano t div 1000000000 + locOffset t;
          (year, month, day) = absDate (unix div 86400 + 719162);
          s = unix mod 86400
      in \<lparr>cYear = year, cMonth = month, cDay = day, cHour = s div 3600,
          cMinute = s mod 3600 div 60, cSecond = s mod 60,
          cNsec = unixNano t mod 1000000000\<rparr>)"

text \<open>
  \<^verbatim>\<open>appendInt(b, x, width)\<close>: the decimal digits of \<open>x\<close>, a minus sign before a negative
  number, zeros on the left up to \<open>width\<close> digits.
\<close>

function utod :: "int \<Rightarrow> string" where
  "utod u = (if u < 10 then [''0123456789'' ! nat u]
             else utod (u div 10) @ [''0123456789'' ! nat (u mod 10)])"
  by pat_completeness auto
termination by (relation "measure nat") auto

definition appendInt :: "int \<Rightarrow> nat \<Rightarrow> string" where
  "appendInt x width =
     (let ds = utod \<bar>x\<bar> in
      (if x < 0 then ''-'' else []) @ replicate (width - length ds) (CHR ''0'') @ ds)"

text \<open>
  The layout element \<^verbatim>\<open>.999999999\<close>: nothing for a whole second, otherwise the point and
  the nine digits of the nanoseconds without their trailing zeros.
\<close>

definition appendNano :: "int \<Rightarrow> string" where
  "appendNano nanosec =
     (if nanosec = 0 then []
      else ''.'' @ rev (dropWhile (\<lambda>c. c = CHR ''0'') (rev (appendInt nanosec 9))))"

text \<open>
  The layout element \<^verbatim>\<open>-07:00\<close>: the sign, hours and minutes of the offset. Go's integer
  division rounds toward zero.
\<close>

definition appendZone :: "int \<Rightarrow> string" where
  "appendZone offset =
     (let zone = (if offset < 0 then - ((- offset) div 60) else offset div 60);
          sign = (if zone < 0 then ''-'' else ''+'');
          zone = \<bar>zone\<bar>
      in sign @ appendInt (zone div 60) 2 @ '':'' @ appendInt (zone mod 60) 2)"

text \<open>
  \<^verbatim>\<open>t.Format("2006-01-02 15:04:05.999999999-07:00")\<close>, the text in which the SQLite
  driver of the store (\<^verbatim>\<open>github.com/glebarez/sqlite\<close> in \<^verbatim>\<open>go.mod\<close>) writes a
  \<^verbatim>\<open>time.Time\<close>, be it the column of a row or the parameter of a query: the wall clock
  of the \<^verbatim>\<open>Time\<close> in its own location, then the offset of that location.
\<close>

definition timestampText :: "Time \<Rightarrow> string" where
  "timestampText t =
     (let c = wallClock t in
      appendInt (cYear c) 4 @ ''-'' @ appendInt (cMonth c) 2 @ ''-'' @ appendInt (cDay c) 2 @
      '' '' @ appendInt (cHour c) 2 @ '':'' @ appendInt (cMinute c) 2 @ '':'' @
      appendInt (cSecond c) 2 @ appendNano (cNsec c) @ appendZone (locOffset t))"

section \<open>Data model\<close>

text \<open>\<^verbatim>\<open>pkg/models/tide_data.go\<close>: \<^verbatim>\<open>type TideType string\<close> with its two constants.\<close>

type_synonym TideType = string

definition TideTypeHigh :: TideType where
  "TideTypeHigh = ''high''"

definition TideTypeLow :: TideType where
  "TideTypeLow = ''low''"

text \<open>
  \<^verbatim>\<open>models.TideData\<close>. Heights are \<^verbatim>\<open>float64\<close> in the source; a finite float is a
  rational number and the code only compares heights, so a height is the rational
  it denotes. The columns \<^verbatim>\<open>ID\<close>, \<^verbatim>\<open>CreatedAt\<close> and \<^verbatim>\<open>UpdatedAt\<close>, filled in by the
  storage layer on insert and read by nothing here, are left out. \<^verbatim>\<open>TideTime\<close> is kept
  with its location, in which the store writes it; \<^verbatim>\<open>Date\<close>, always a midnight of
  \<^verbatim>\<open>wibTimezone\<close> and compared with such midnights only, is kept as its instant.
\<close>

record TideData =
  Location :: string
  Date :: time
  TideType :: TideType
  TideTime :: Time
  HeightM :: rat
  HeightFt :: rat

text \<open>The fields of \<^verbatim>\<open>weathermodels.AlertDetail\<close> that the risk assessment reads.\<close>

record AlertDetail =
  Effective :: Time
  Expires :: Time
  Description :: string

text \<open>
  \<^verbatim>\<open>controllers.TidalFloodRisk\<close>. Its fields \<^verbatim>\<open>TideType\<close> and \<^verbatim>\<open>TideTime\<close> are named
  \<open>RiskTideType\<close> and \<open>RiskTideTime\<close> here, the names being taken by \<open>TideData\<close>.
  A field the source leaves out of a struct literal has Go's zero value. The time of
  the verdict is kept as its instant.
\<close>

record TidalFloodRisk =
  HasRisk :: bool
  RiskLevel :: string
  RiskTideType :: string
  RiskTideTime :: time
  TideHeightM :: rat
  HeavyRain :: bool
  Message :: string

section \<open>The tide store\<close>

text \<open>
  The \<^verbatim>\<open>*gorm.DB\<close> handle: the rows of table \<^verbatim>\<open>tide_data\<close>, in the order the engine
  scans them, and which statements the engine fails. \<open>failCreate i\<close> says that the
  \<open>i\<close>-th insert of a transaction (from 0) fails.
\<close>

record gormDB =
  tide_data :: "TideData list"
  failFind :: bool
  failBegin :: bool
  failDelete :: bool
  failCreate :: "nat \<Rightarrow> bool"
  failCommit :: bool

text \<open>
  \<^verbatim>\<open>tx.Where("location = ? AND date = ?", location, date).Delete(&models.TideData{})\<close>:
  the statement and its error.
\<close>

definition deleteWhere :: "gormDB \<Rightarrow> string \<Rightarrow> time \<Rightarrow> gormDB \<times> error option" where
  "deleteWhere tx loc date =
     (if failDelete tx then (tx, Some DeleteFailed)
      else (tx\<lparr>tide_data := filter (\<lambda>t. \<not> (Location t = loc \<and> Date t = date)) (tide_data tx)\<rparr>,
            None))"

text \<open>\<^verbatim>\<open>tx.Create(&data)\<close>, the \<open>i\<close>-th insert of the transaction.\<close>

definition createRow :: "gormDB \<Rightarrow> nat \<Rightarrow> TideData \<Rightarrow> gormDB \<times> error option" where
  "createRow tx i data =
     (if failCreate tx i then (tx, Some InsertFailed)
      else (tx\<lparr>tide_data := tide_data tx @ [data]\<rparr>, None))"

text \<open>
  \<^verbatim>\<open>db.Transaction(fc)\<close>, as gorm documents it: the function runs on a transaction; when
  it returns an error the transaction is rolled back and the error returned, otherwise
  the transaction is committed. The function here also returns the variable it
  captures (\<open>count\<close>), whose value outlives a rollback.
\<close>

definition Transaction ::
  "gormDB \<Rightarrow> 'a \<Rightarrow> (gormDB \<Rightarrow> 'a \<Rightarrow> gormDB \<times> 'a \<times> error option) \<Rightarrow> gormDB \<times> 'a \<times> error option" where
  "Transaction database captured fc =
     (if failBegin database then (database, captured, Some BeginFailed)
      else case fc database captured of
             (tx, captured', Some err) \<Rightarrow> (database, captured', Some err)
           | (tx, captured', None) \<Rightarrow>
               if failCommit database then (database, captured', Some CommitFailed)
               else (tx, captured', None))"

section \<open>The tide fetcher (\<^verbatim>\<open>pkg/fetcher/tidal_flood.go\<close>)\<close>

text \<open>\<^verbatim>\<open>var wibTimezone = time.FixedZone("WIB", 7*60*60)\<close>: the offset in seconds.\<close>

definition wibTimezone :: int where
  "wibTimezone = 7 * 60 * 60"

text \<open>The instant a wall clock in WIB shows, and the midnight that began its day.\<close>

definition instantOf :: "clock \<Rightarrow> time" where
  "instantOf c = timeDate (cYear c) (cMonth c) (cDay c) (cHour c) (cMinute c) (cSecond c)
     (cNsec c) wibTimezone"

definition localMidnight :: "clock \<Rightarrow> time" where
  "localMidnight c = timeDate (cYear c) (cMonth c) (cDay c) 0 0 0 0 wibTimezone"

subsection \<open>The scheduler\<close>

text \<open>
  \<^verbatim>\<open>calculateNext2HourMark\<close>. The argument is the reading of
  \<^verbatim>\<open>time.Now().In(wibTimezone)\<close>. \<^verbatim>\<open>nextRun.AddDate(0, 0, 1)\<close> is \<^verbatim>\<open>time.Date\<close> on the
  fields of \<^verbatim>\<open>nextRun\<close> with the day increased by one.
\<close>

definition calculateNext2HourMark :: "clock \<Rightarrow> time" where
  "calculateNext2HourMark now =
     (let currentHour = cHour now;
          nextHour = ((currentHour div 2) + 1) * 2
      in if nextHour \<ge> 24
         then timeDate (cYear now) (cMonth now) (cDay now + 1) (nextHour mod 24) 0 0 0 wibTimezone
         else timeDate (cYear now) (cMonth now) (cDay now) (nextHour mod 24) 0 0 0 wibTimezone)"

text \<open>
  The stop channel. \<^verbatim>\<open>stopChan\<close> is made by \<^verbatim>\<open>make(chan struct{})\<close> and nothing is ever
  sent on it, so its state is whether it has been closed. Go's built-in \<^verbatim>\<open>close\<close>
  panics on a channel that is already closed.
\<close>

datatype chan = ChanOpen | ChanClosed

datatype panic = CloseOfClosedChannel

definition closeChan :: "chan \<Rightarrow> panic + chan" where
  "closeChan c = (case c of ChanOpen \<Rightarrow> Inr ChanClosed | ChanClosed \<Rightarrow> Inl CloseOfClosedChannel)"

text \<open>\<^verbatim>\<open>type TidalFloodFetcher struct { db *gorm.DB; stopChan chan struct{} }\<close>\<close>

record TidalFloodFetcher =
  fetcherDB :: gormDB
  stopChan :: chan

definition NewTidalFloodFetcher :: "gormDB \<Rightarrow> TidalFloodFetcher" where
  "NewTidalFloodFetcher database = \<lparr>fetcherDB = database, stopChan = ChanOpen\<rparr>"

text \<open>\<^verbatim>\<open>func (f *TidalFloodFetcher) Stop() { close(f.stopChan) }\<close>\<close>

definition Stop :: "TidalFloodFetcher \<Rightarrow> panic + TidalFloodFetcher" where
  "Stop f = (case closeChan (stopChan f) of
               Inl p \<Rightarrow> Inl p
             | Inr c \<Rightarrow> Inr (f\<lparr>stopChan := c\<rparr>))"

subsection \<open>Parsing\<close>

text \<open>\<^verbatim>\<open>(-?[\d.]+)\s*m\s*\((-?[\d.]+)\s*ft\)\<close>\<close>

definition heightRegexp :: "atom list" where
  "heightRegexp =
     [Mark, Opt (CHR ''-''), Plus isNumChar, Mark, Star isSpace, Lit (CHR ''m''), Star isSpace,
      Lit (CHR ''(''), Mark, Opt (CHR ''-''), Plus isNumChar, Mark, Star isSpace,
      Lit (CHR ''f''), Lit (CHR ''t''), Lit (CHR '')'')]"

text \<open>\<^verbatim>\<open>(\w+)\s+(\w+)\s+(\d+),\s+(\d+)\<close>\<close>

definition dateRegexp :: "atom list" where
  "dateRegexp =
     [Mark, Plus isWord, Mark, Plus isSpace, Mark, Plus isWord, Mark, Plus isSpace,
      Mark, Plus isDigit, Mark, Lit (CHR '',''), Plus isSpace, Mark, Plus isDigit, Mark]"

text \<open>
  \<^verbatim>\<open>parseTideDate\<close>: the result is \<^verbatim>\<open>time.Date(y, m, d, 0, 0, 0, 0, wibTimezone)\<close>,
  kept as the wall clock it shows in WIB. (The copy of this file that stores dates
  in UTC returns, beside it, the same civil date at UTC midnight for the \<^verbatim>\<open>Date\<close>
  column.)
\<close>

definition parseTideDate :: "string \<Rightarrow> error + clock" where
  "parseTideDate text =
     (let matches = FindStringSubmatch dateRegexp text in
      if length matches < 5 then Inl DateNoMatch
      else let dateStr = matches ! 2 @ '' '' @ matches ! 3 @ '', '' @ matches ! 4 in
        case parseLongDate dateStr of
          None \<Rightarrow> Inl DateParseFailed
        | Some (y, m, d) \<Rightarrow>
            Inr \<lparr>cYear = y, cMonth = m, cDay = d, cHour = 0, cMinute = 0, cSecond = 0,
                 cNsec = 0\<rparr>)"

text \<open>
  \<^verbatim>\<open>parseTimeWIB\<close>. Both copies of the function build the same instant; one returns it
  in WIB, the other converted with \<^verbatim>\<open>.UTC()\<close>.
\<close>

definition parseTimeWIB :: "clock \<Rightarrow> string \<Rightarrow> error + time" where
  "parseTimeWIB date timeStr =
     (let parts = Split timeStr (CHR '':'') in
      if length parts \<noteq> 2 then Inl InvalidTimeFormat
      else case Atoi (parts ! 0) of
             Inl err \<Rightarrow> Inl err
           | Inr hour \<Rightarrow>
               (case Atoi (parts ! 1) of
                  Inl err \<Rightarrow> Inl err
                | Inr minute \<Rightarrow>
                    Inr (timeDate (cYear date) (cMonth date) (cDay date) hour minute 0 0
                           wibTimezone)))"

text \<open>\<^verbatim>\<open>parseHeight\<close>\<close>

definition parseHeight :: "string \<Rightarrow> error + (rat \<times> rat)" where
  "parseHeight heightStr =
     (let matches = FindStringSubmatch heightRegexp heightStr in
      if length matches < 3 then Inl HeightNoMatch
      else case ParseFloat (matches ! 1) of
             Inl err \<Rightarrow> Inl err
           | Inr heightM \<Rightarrow>
               (case ParseFloat (matches ! 2) of
                  Inl err \<Rightarrow> Inl err
                | Inr heightFt \<Rightarrow> Inr (heightM, heightFt)))"

subsection \<open>Fetching\<close>

definition TideLocation :: string where
  "TideLocation = ''Sekupang''"

text \<open>
  What \<^verbatim>\<open>Fetch\<close> reads of the page: the text of every \<^verbatim>\<open>div\<close>, in document order, and for
  every \<^verbatim>\<open>tr\<close> of \<^verbatim>\<open>table.table-bordered\<close> the texts of its \<^verbatim>\<open>td\<close> cells. The outcome of
  \<^verbatim>\<open>http.Get\<close> is a transport error or a response with its status code and its body,
  which \<^verbatim>\<open>goquery.NewDocumentFromReader\<close> reads into a document or fails to.
\<close>

record document =
  divTexts :: "string list"
  tableRows :: "string list list"

datatype httpResult = TransportError | Response int "document option"

text \<open>The \<^verbatim>\<open>div\<close> loop: the last text that has both markers, or the empty string.\<close>

definition findDateText :: "string list \<Rightarrow> string" where
  "findDateText divs =
     foldl (\<lambda>dateText text.
              if Contains text ''Tide Times for'' \<and> Contains text ''(WIB)'' then text
              else dateText) [] divs"

text \<open>
  The body of the row loop for row \<open>i\<close> with cell texts \<open>cols\<close>: the record it
  appends, or \<open>None\<close> when it returns early.
\<close>

definition parseRow :: "clock \<Rightarrow> nat \<Rightarrow> string list \<Rightarrow> TideData option" where
  "parseRow date i cols =
     (if i = 0 then None
      else if length cols \<noteq> 3 then None
      else
        let tideTypeStr = TrimSpace (cols ! 0);
            timeStr = TrimSpace (cols ! 1);
            heightStr = TrimSpace (cols ! 2)
        in if \<not> Contains (ToLower tideTypeStr) ''high'' \<and> \<not> Contains (ToLower tideTypeStr) ''low''
           then None
           else
             let tideType = (if Contains (ToLower tideTypeStr) ''high'' then TideTypeHigh
                             else TideTypeLow)
             in case parseTimeWIB date timeStr of
                  Inl err \<Rightarrow> None
                | Inr tideTime \<Rightarrow>
                    (case parseHeight heightStr of
                       Inl err \<Rightarrow> None
                     | Inr (heightM, heightFt) \<Rightarrow>
                         Some \<lparr>Location = TideLocation, Date = instantOf date,
                               TideType = tideType,
                               TideTime = \<lparr>unixNano = tideTime, locOffset = wibTimezone\<rparr>,
                               HeightM = heightM, HeightFt = heightFt\<rparr>))"

text \<open>The row loop, from row \<open>i\<close> on, appending to \<open>tideData\<close>.\<close>

fun eachRow :: "clock \<Rightarrow> nat \<Rightarrow> string list list \<Rightarrow> TideData list \<Rightarrow> TideData list" where
  "eachRow date i [] tideData = tideData"
| "eachRow date i (cols # rows) tideData =
     (case parseRow date i cols of
        None \<Rightarrow> eachRow date (Suc i) rows tideData
      | Some data \<Rightarrow> eachRow date (Suc i) rows (tideData @ [data]))"

text \<open>\<^verbatim>\<open>Fetch\<close>, given the outcome of \<^verbatim>\<open>http.Get(WorldTidesURL)\<close>.\<close>

definition Fetch :: "httpResult \<Rightarrow> error + (TideData list \<times> clock)" where
  "Fetch resp =
     (case resp of
        TransportError \<Rightarrow> Inl FetchFailed
      | Response statusCode body \<Rightarrow>
          if statusCode \<noteq> 200 then Inl (BadStatusCode statusCode)
          else case body of
            None \<Rightarrow> Inl HTMLParseFailed
          | Some doc \<Rightarrow>
              let dateText = findDateText (divTexts doc) in
              if dateText = [] then Inl HeaderNotFound
              else case parseTideDate dateText of
                Inl err \<Rightarrow> Inl err
              | Inr date \<Rightarrow>
                  let tideData = eachRow date 0 (tableRows doc) [] in
                  if length tideData = 0 then Inl NoTideData
                  else Inr (tideData, date))"

subsection \<open>Storing\<close>

text \<open>The insert loop of the transaction, from the \<open>count\<close>-th insert on.\<close>

fun insertAll :: "gormDB \<Rightarrow> nat \<Rightarrow> TideData list \<Rightarrow> gormDB \<times> nat \<times> error option" where
  "insertAll tx count [] = (tx, count, None)"
| "insertAll tx count (data # rest) =
     (case createRow tx count data of
        (tx', Some err) \<Rightarrow> (tx', count, Some InsertFailed)
      | (tx', None) \<Rightarrow> insertAll tx' (Suc count) rest)"

text \<open>
  The second half of \<^verbatim>\<open>FetchAndStore\<close>, from the test for an empty batch to the end: the
  day replace. The result is the database afterwards and the pair \<^verbatim>\<open>(int, error)\<close>
  returned.
\<close>

definition replaceDay :: "gormDB \<Rightarrow> TideData list \<Rightarrow> time \<Rightarrow> gormDB \<times> nat \<times> error option" where
  "replaceDay database tideData date =
     (if length tideData = 0 then (database, 0, None)
      else
        case Transaction database 0
               (\<lambda>tx count.
                  case deleteWhere tx TideLocation date of
                    (tx', Some err) \<Rightarrow> (tx', count, Some DeleteFailed)
                  | (tx', None) \<Rightarrow> insertAll tx' count tideData) of
          (database', count, Some err) \<Rightarrow> (database', 0, Some err)
        | (database', count, None) \<Rightarrow> (database', count, None))"

text \<open>\<^verbatim>\<open>FetchAndStore\<close>, given the database and the outcome of \<^verbatim>\<open>http.Get\<close>.\<close>

definition FetchAndStore :: "gormDB \<Rightarrow> httpResult \<Rightarrow> gormDB \<times> nat \<times> error option" where
  "FetchAndStore database resp =
     (case Fetch resp of
        Inl err \<Rightarrow> (database, 0, Some err)
      | Inr (tideData, date) \<Rightarrow> replaceDay database tideData (instantOf date))"

section \<open>Risk assessment (\<^verbatim>\<open>cmd/api/controllers/alert.go\<close>)\<close>

text \<open>
  The tide store is a SQLite database. Its driver writes a \<^verbatim>\<open>time.Time\<close> as the text
  \<open>timestampText\<close>, and SQLite compares two texts byte by byte, a proper prefix being the
  smaller (\<^verbatim>\<open>memcmp\<close>, the \<^verbatim>\<open>BINARY\<close> collation).
\<close>

fun memcmpLess :: "string \<Rightarrow> string \<Rightarrow> bool" where
  "memcmpLess [] [] = False"
| "memcmpLess [] (y # ys) = True"
| "memcmpLess (x # xs) [] = False"
| "memcmpLess (x # xs) (y # ys) =
     ((of_char x :: nat) < of_char y \<or> (x = y \<and> memcmpLess xs ys))"

text \<open>
  The condition of the query,
  \<^verbatim>\<open>"tide_type = ? AND height_m > ? AND tide_time >= ? AND tide_time <= ?"\<close>, on one row:
  the two comparisons of \<^verbatim>\<open>tide_time\<close> are comparisons of the text of the row's
  \<^verbatim>\<open>TideTime\<close> with the texts of the parameters, each text in the location of its own
  \<^verbatim>\<open>Time\<close>. (A \<^verbatim>\<open>TideTime\<close> written by \<^verbatim>\<open>FetchAndStore\<close> was built by \<^verbatim>\<open>parseTimeWIB\<close>
  in \<^verbatim>\<open>wibTimezone\<close>, so its text is a wall clock at +07:00.)
\<close>

definition tideWhere :: "TideType \<Rightarrow> rat \<Rightarrow> Time \<Rightarrow> Time \<Rightarrow> TideData \<Rightarrow> bool" where
  "tideWhere tideType minHeight from to t \<longleftrightarrow>
     TideType t = tideType \<and> HeightM t > minHeight \<and>
     \<not> memcmpLess (timestampText (TideTime t)) (timestampText from) \<and>
     \<not> memcmpLess (timestampText to) (timestampText (TideTime t))"

text \<open>
  The query of \<^verbatim>\<open>calculateTidalFloodRisk\<close>:
  \<^verbatim>\<open>db.Where("tide_type = ? AND height_m > ? AND tide_time >= ? AND tide_time <= ?",
       tideType, minHeight, from, to).Order("height_m DESC").Find(&tideData)\<close>.
  Rows of equal height come in the order the engine scans them (a stable sort).
\<close>

definition findTides ::
  "gormDB \<Rightarrow> TideType \<Rightarrow> rat \<Rightarrow> Time \<Rightarrow> Time \<Rightarrow> error + TideData list" where
  "findTides db tideType minHeight from to =
     (if failFind db then Inl QueryFailed
      else Inr (sort_key (\<lambda>t. - HeightM t)
        (filter (tideWhere tideType minHeight from to) (tide_data db))))"

definition tideBufferDuration :: int where
  "tideBufferDuration = 2 * Hour"

definition hasHeavyRain :: "AlertDetail \<Rightarrow> bool" where
  "hasHeavyRain alert = Contains (ToLower (Description alert)) ''heavy rain''"

text \<open>
  \<^verbatim>\<open>calculateTidalFloodRisk(db, alert, timezone)\<close>. The argument \<open>nowTz\<close> is the value of
  \<^verbatim>\<open>basetraits.FormatTimeWithTimezone(time.Now().UTC(), timezone)\<close>, a function of the
  library this repository extends and the only use of \<^verbatim>\<open>timezone\<close>.
\<close>

definition calculateTidalFloodRisk :: "gormDB \<Rightarrow> AlertDetail \<Rightarrow> time \<Rightarrow> TidalFloodRisk" where
  "calculateTidalFloodRisk db alert nowTz =
     (if \<not> hasHeavyRain alert then
        \<lparr>HasRisk = False, RiskLevel = ''none'', RiskTideType = [], RiskTideTime = nowTz,
         TideHeightM = 0, HeavyRain = False, Message = ''No heavy rain expected''\<rparr>
      else
        let expiresWithBuffer = Add (Expires alert) tideBufferDuration in
        case findTides db TideTypeHigh 2.6 (Effective alert) expiresWithBuffer of
          Inl err \<Rightarrow>
            \<lparr>HasRisk = False, RiskLevel = ''unknown'', RiskTideType = [], RiskTideTime = nowTz,
             TideHeightM = 0, HeavyRain = True,
             Message = ''Unable to determine tidal flood risk''\<rparr>
        | Inr [] \<Rightarrow>
            \<lparr>HasRisk = False, RiskLevel = ''none'', RiskTideType = [], RiskTideTime = nowTz,
             TideHeightM = 0, HeavyRain = True,
             Message = ''No tidal flood risk: No high tide (>2.6m) during or near alert period''\<rparr>
        | Inr (highestTide # rest) \<Rightarrow>
            if unixNano (TideTime highestTide) > unixNano (Expires alert) then
              \<lparr>HasRisk = True, RiskLevel = ''moderate'', RiskTideType = TideType highestTide,
               RiskTideTime = unixNano (TideTime highestTide), TideHeightM = HeightM highestTide,
               HeavyRain = True,
               Message = ''MODERATE RISK: Heavy rain with high tide (>2.6m) shortly after - Sea level rising during alert period''\<rparr>
            else
              \<lparr>HasRisk = True, RiskLevel = ''high'', RiskTideType = TideType highestTide,
               RiskTideTime = unixNano (TideTime highestTide), TideHeightM = HeightM highestTide,
               HeavyRain = True,
               Message = ''HIGH RISK: Heavy rain expected during high tide (>2.6m) - Flash flood possible!''\<rparr>)"

text \<open>
  The qualifying observations of the specification: kind High, height above 2.6 m, time
  within \<open>[alert.effective, alert.expires + 2h]\<close>, the times taken as instants.
\<close>

definition qualifying :: "AlertDetail \<Rightarrow> TideData \<Rightarrow> bool" where
  "qualifying alert t \<longleftrightarrow>
     TideType t = ''high'' \<and> HeightM t > 26 / 10 \<and>
     unixNano (Effective alert) \<le> unixNano (TideTime t) \<and>
     unixNano (TideTime t) \<le> unixNano (Expires alert) + 7200 * 1000000000"

section \<open>The height pattern, as the specification words it\<close>

text \<open>
  A numeral as the pattern captures it (\<^verbatim>\<open>-?[\d.]+\<close>): an optional minus, then one or more
  digits and points.
\<close>

definition numeralShape :: "string \<Rightarrow> bool" where
  "numeralShape g \<longleftrightarrow>
     (\<exists>sign body. g = sign @ body \<and> (sign = [] \<or> sign = ''-'') \<and> body \<noteq> [] \<and>
        (\<forall>c\<in>set body. isNumChar c))"

text \<open>
  The two-part pattern "\<open><meters> m (<feet> ft)\<close>" occurs in \<open>s\<close> with numerals \<open>a\<close> and
  \<open>b\<close>; white space may stand before \<open>m\<close>, before the parenthesis and before \<open>ft\<close>.
\<close>

definition heightPatternOccurs :: "string \<Rightarrow> string \<Rightarrow> string \<Rightarrow> bool" where
  "heightPatternOccurs s a b \<longleftrightarrow>
     (\<exists>pre w1 w2 w3 post.
        s = pre @ a @ w1 @ ''m'' @ w2 @ ''('' @ b @ w3 @ ''ft)'' @ post \<and>
        numeralShape a \<and> numeralShape b \<and>
        (\<forall>c\<in>set w1. isSpace c) \<and> (\<forall>c\<in>set w2. isSpace c) \<and> (\<forall>c\<in>set w3. isSpace c))"

text \<open>
  A decimal numeral: an optional sign, digits with at most one point, at least one
  digit.
\<close>

definition validDecimal :: "string \<Rightarrow> bool" where
  "validDecimal g \<longleftrightarrow>
     (\<exists>sign ip fp.
        (g = sign @ ip \<and> fp = [] \<or> g = sign @ ip @ ''.'' @ fp) \<and>
        (sign = [] \<or> sign = ''+'' \<or> sign = ''-'') \<and>
        (\<forall>c\<in>set (ip @ fp). isDigit c) \<and> ip @ fp \<noteq> [])"

section \<open>Accepted rows, as the specification words them\<close>

text \<open>
  A row is accepted when it has exactly three cells, its first cell names a tide kind
  ("high" or "low", case-insensitively, anywhere in it), its second cell parses as a
  clock time and its third as a height.
\<close>

definition rowAccepted :: "clock \<Rightarrow> string list \<Rightarrow> bool" where
  "rowAccepted date cols \<longleftrightarrow>
     length cols = 3 \<and>
     (Contains (ToLower (TrimSpace (cols ! 0))) ''high'' \<or>
      Contains (ToLower (TrimSpace (cols ! 0))) ''low'') \<and>
     (\<exists>t. parseTimeWIB date (TrimSpace (cols ! 1)) = Inr t) \<and>
     (\<exists>h. parseHeight (TrimSpace (cols ! 2)) = Inr h)"

section \<open>Integer numerals, as the specification words them\<close>

text \<open>
  The text \<open>s\<close> is a decimal integer numeral of value \<open>n\<close>: an optional sign (plus or
  minus), then one or more decimal digits and nothing else.
\<close>

definition intNumeral :: "string \<Rightarrow> int \<Rightarrow> bool" where
  "intNumeral s n \<longleftrightarrow>
     (\<exists>sign ds. s = sign @ ds \<and> (sign = [] \<or> sign = ''+'' \<or> sign = ''-'') \<and> ds \<noteq> [] \<and>
        (\<forall>c\<in>set ds. isDigit c) \<and>
        n = (if sign = ''-'' then - digitsVal 0 ds else digitsVal 0 ds))"

text \<open>The numeral's value fits Go's 64-bit \<open>int\<close>.\<close>

definition int64Numeral :: "string \<Rightarrow> int \<Rightarrow> bool" where
  "int64Numeral s n \<longleftrightarrow>
     intNumeral s n \<and> - 9223372036854775808 \<le> n \<and> n < 9223372036854775808"

section \<open>Example inputs\<close>

text \<open>Example inputs: an advisory valid for three hours and two high tides.\<close>

definition rainAlert :: AlertDetail where
  "rainAlert = \<lparr>Effective = \<lparr>unixNano = 0, locOffset = 0\<rparr>,
     Expires = \<lparr>unixNano = 3 * 3600000000000, locOffset = 0\<rparr>,
     Description = ''Heavy Rain with thunderstorm in Batam, Sekupang''\<rparr>"

definition dryAlert :: AlertDetail where
  "dryAlert = \<lparr>Effective = \<lparr>unixNano = 0, locOffset = 0\<rparr>,
     Expires = \<lparr>unixNano = 3 * 3600000000000, locOffset = 0\<rparr>,
     Description = ''Strong wind in Batam, Sekupang''\<rparr>"

definition tide27 :: TideData where
  "tide27 = \<lparr>Location = ''Sekupang'', Date = 0, TideType = ''high'',
     TideTime = \<lparr>unixNano = 1 * 3600000000000, locOffset = 25200\<rparr>,
     HeightM = 27 / 10, HeightFt = 89 / 10\<rparr>"

definition tide29 :: TideData where
  "tide29 = \<lparr>Location = ''Sekupang'', Date = 0, TideType = ''high'',
     TideTime = \<lparr>unixNano = 4 * 3600000000000, locOffset = 25200\<rparr>,
     HeightM = 29 / 10, HeightFt = 95 / 10\<rparr>"

definition storeOf :: "TideData list \<Rightarrow> bool \<Rightarrow> gormDB" where
  "storeOf rows broken = \<lparr>tide_data = rows, failFind = broken, failBegin = False,
     failDelete = False, failCreate = (\<lambda>i. False), failCommit = False\<rparr>"

text \<open>Two dates as \<open>parseTideDate\<close> returns them: WIB midnight of the day.\<close>

definition december4 :: clock where
  "december4 = \<lparr>cYear = 2025, cMonth = 12, cDay = 4, cHour = 0, cMinute = 0, cSecond = 0,
     cNsec = 0\<rparr>"

definition december31 :: clock where
  "december31 = \<lparr>cYear = 2025, cMonth = 12, cDay = 31, cHour = 0, cMinute = 0, cSecond = 0,
     cNsec = 0\<rparr>"

text \<open>
  A page with the date header and a table of five rows: the header row, two good rows, a
  row of two cells and a row whose time has no colon. The batch is what the good rows
  denote: 03:12 and 09:40 WIB on 2025-12-04, as instants.
\<close>

definition tidePage :: document where
  "tidePage = \<lparr>divTexts = [''Sekupang tides'',
       ''Tide Times for Sekupang: Thursday December 4, 2025 (WIB)''],
     tableRows = [[''Tide'', ''Time'', ''Height''],
       [''High Tide'', '' 03:12 '', ''2.8 m (9.2 ft)''],
       [''Sunrise'', ''05:55''],
       [''High'', ''9.40'', ''1 m (3 ft)''],
       [''Low Tide'', ''09:40'', ''0.4 m (1.3 ft)'']]\<rparr>"

definition tidePageBatch :: "TideData list" where
  "tidePageBatch =
     [\<lparr>Location = ''Sekupang'', Date = 1764781200000000000, TideType = ''high'',
        TideTime = \<lparr>unixNano = 1764792720000000000, locOffset = 25200\<rparr>,
     HeightM = 14 / 5, HeightFt = 46 / 5\<rparr>,
      \<lparr>Location = ''Sekupang'', Date = 1764781200000000000, TideType = ''low'',
        TideTime = \<lparr>unixNano = 1764816000000000000, locOffset = 25200\<rparr>,
     HeightM = 2 / 5, HeightFt = 13 / 10\<rparr>]"

text \<open>The same page with a table in which no row can be used.\<close>

definition pageWithoutTides :: document where
  "pageWithoutTides = \<lparr>divTexts = divTexts tidePage,
     tableRows = [[''Tide'', ''Time'', ''Height''],
       [''Sunrise'', ''05:55''],
       [''High'', ''03:12'', ''high'']]\<rparr>"

text \<open>
  A store holding one row of 2025-12-04 and one of the day before, and the same store
  with an engine that fails the second insert of a transaction.
\<close>

definition oldTide :: TideData where
  "oldTide = \<lparr>Location = ''Sekupang'', Date = 1764781200000000000, TideType = ''high'',
     TideTime = \<lparr>unixNano = 1764790000000000000, locOffset = 25200\<rparr>,
     HeightM = 5 / 2, HeightFt = 41 / 5\<rparr>"

definition otherDayTide :: TideData where
  "otherDayTide = \<lparr>Location = ''Sekupang'', Date = 1764694800000000000, TideType = ''low'',
     TideTime = \<lparr>unixNano = 1764700000000000000, locOffset = 25200\<rparr>,
     HeightM = 1 / 2, HeightFt = 8 / 5\<rparr>"

definition secondInsertFails :: gormDB where
  "secondInsertFails = \<lparr>tide_data = [otherDayTide, oldTide], failFind = False,
     failBegin = False, failDelete = False, failCreate = (\<lambda>i. i = 1), failCommit = False\<rparr>"


text \<open>
  An advisory of heavy rain from 20:00 to 22:00 UTC on 2025-12-03, its times in UTC, and
  the same advisory with its times in WIB (03:00 to 05:00 on 2025-12-04). The high tide
  of \<open>tidePage\<close>, 2.8 m at 03:12 WIB on 2025-12-04, is twelve minutes into it.
\<close>

definition stormAlertUTC :: AlertDetail where
  "stormAlertUTC = \<lparr>Effective = \<lparr>unixNano = 1764792000000000000, locOffset = 0\<rparr>,
     Expires = \<lparr>unixNano = 1764799200000000000, locOffset = 0\<rparr>,
     Description = ''Heavy rain with thunderstorm in Batam, Sekupang''\<rparr>"

definition stormAlertWIB :: AlertDetail where
  "stormAlertWIB = \<lparr>Effective = \<lparr>unixNano = 1764792000000000000, locOffset = 25200\<rparr>,
     Expires = \<lparr>unixNano = 1764799200000000000, locOffset = 25200\<rparr>,
     Description = ''Heavy rain with thunderstorm in Batam, Sekupang''\<rparr>"

text \<open>
  An advisory of heavy rain from 15:00 to 22:00 UTC on 2025-12-03, its times in UTC, and
  two high tides within it as the fetcher stores them: 2.7 m at 23:00 WIB on 2025-12-03
  (16:00 UTC) and 2.9 m at 03:12 WIB on 2025-12-04 (20:12 UTC).
\<close>

definition eveningAlertUTC :: AlertDetail where
  "eveningAlertUTC = \<lparr>Effective = \<lparr>unixNano = 1764774000000000000, locOffset = 0\<rparr>,
     Expires = \<lparr>unixNano = 1764799200000000000, locOffset = 0\<rparr>,
     Description = ''Heavy rain with thunderstorm in Batam, Sekupang''\<rparr>"

definition nightTide :: TideData where
  "nightTide = \<lparr>Location = ''Sekupang'', Date = 1764694800000000000, TideType = ''high'',
     TideTime = \<lparr>unixNano = 1764777600000000000, locOffset = 25200\<rparr>,
     HeightM = 27 / 10, HeightFt = 89 / 10\<rparr>"

definition dawnTide :: TideData where
  "dawnTide = \<lparr>Location = ''Sekupang'', Date = 1764781200000000000, TideType = ''high'',
     TideTime = \<lparr>unixNano = 1764792720000000000, locOffset = 25200\<rparr>,
     HeightM = 29 / 10, HeightFt = 95 / 10\<rparr>"
section \<open>Properties of the risk assessment\<close>

lemma Contains_sublist: "Contains s substr = sublist substr s"
  by (induction s) (simp_all add: sublist_Cons_right)

text \<open>
  The heavy-rain signal: the description, lowered, has "heavy rain" somewhere in it.
\<close>

lemma hasHeavyRain_iff:
  "hasHeavyRain alert \<longleftrightarrow>
     (\<exists>before after. ToLower (Description alert) = before @ ''heavy rain'' @ after)"
  by (simp add: hasHeavyRain_def Contains_sublist sublist_def)

lemma sort_key_head:
  assumes "sort_key f ys = x # xs"
  shows "x \<in> set ys \<and> (\<forall>u\<in>set ys. f x \<le> f u)"
proof -
  have "set (x # xs) = set ys"
    using assms set_sort [of f ys] by simp
  moreover have "sorted (map f (x # xs))"
    using assms sorted_sort_key [of f ys] by simp
  ultimately show ?thesis by auto
qed

lemma sort_key_Nil: "sort_key f ys = [] \<longleftrightarrow> ys = []"
  using length_sort [of f ys] by (metis length_0_conv)

text \<open>
  When the description has the heavy-rain signal, the query succeeds and the condition of
  the query holds of some stored row, the verdict is built from such a row of maximal
  height: level \<open>moderate\<close> when its instant is after \<open>expires\<close>, level \<open>high\<close> otherwise.
\<close>

lemma risk_of_head:
  assumes rain: "hasHeavyRain alert" and ok: "\<not> failFind db"
    and q: "\<exists>t\<in>set (tide_data db).
      tideWhere TideTypeHigh 2.6 (Effective alert) (Add (Expires alert) tideBufferDuration) t"
  shows "\<exists>t\<in>set (tide_data db).
           tideWhere TideTypeHigh 2.6 (Effective alert) (Add (Expires alert) tideBufferDuration) t \<and>
           (\<forall>u\<in>set (tide_data db).
              tideWhere TideTypeHigh 2.6 (Effective alert)
                (Add (Expires alert) tideBufferDuration) u \<longrightarrow> HeightM u \<le> HeightM t) \<and>
           calculateTidalFloodRisk db alert nowTz =
             \<lparr>HasRisk = True,
              RiskLevel = (if unixNano (TideTime t) > unixNano (Expires alert) then ''moderate'' else ''high''),
              RiskTideType = TideType t, RiskTideTime = unixNano (TideTime t), TideHeightM = HeightM t,
              HeavyRain = True,
              Message = (if unixNano (TideTime t) > unixNano (Expires alert)
                then ''MODERATE RISK: Heavy rain with high tide (>2.6m) shortly after - Sea level rising during alert period''
                else ''HIGH RISK: Heavy rain expected during high tide (>2.6m) - Flash flood possible!'')\<rparr>"
proof -
  let ?w = "tideWhere TideTypeHigh 2.6 (Effective alert) (Add (Expires alert) tideBufferDuration)"
  let ?ys = "filter ?w (tide_data db)"
  from q have "?ys \<noteq> []" by (auto simp: filter_empty_conv)
  then obtain x xs where s: "sort_key (\<lambda>t. - HeightM t) ?ys = x # xs"
    by (cases "sort_key (\<lambda>t. - HeightM t) ?ys") (simp_all add: sort_key_Nil)
  from sort_key_head [OF s] have x: "x \<in> set (tide_data db)" "?w x"
    and m: "\<forall>u\<in>set (tide_data db). ?w u \<longrightarrow> HeightM u \<le> HeightM x"
    by auto
  have "calculateTidalFloodRisk db alert nowTz =
             \<lparr>HasRisk = True,
              RiskLevel = (if unixNano (TideTime x) > unixNano (Expires alert) then ''moderate'' else ''high''),
              RiskTideType = TideType x, RiskTideTime = unixNano (TideTime x), TideHeightM = HeightM x,
              HeavyRain = True,
              Message = (if unixNano (TideTime x) > unixNano (Expires alert)
                then ''MODERATE RISK: Heavy rain with high tide (>2.6m) shortly after - Sea level rising during alert period''
                else ''HIGH RISK: Heavy rain expected during high tide (>2.6m) - Flash flood possible!'')\<rparr>"
    unfolding calculateTidalFloodRisk_def Let_def findTides_def
    using rain ok s by simp
  with x m show ?thesis by blast
qed

lemma rainAlert_heavy: "hasHeavyRain rainAlert"
  by code_simp

lemma dryAlert_not_heavy: "\<not> hasHeavyRain dryAlert"
  by code_simp

text \<open>
  C2. For an alert whose description does not contain "heavy rain" under case-insensitive
  comparison, the verdict is \<open>HasRisk\<close> false, level \<open>none\<close>, \<open>HeavyRain\<close> false, whatever
  the store holds and whether or not it would answer a query: the verdict is the same
  for every store, so the store is not consulted.
\<close>

theorem no_heavy_rain_no_risk:
  assumes "\<not> hasHeavyRain alert"
  shows "calculateTidalFloodRisk db alert nowTz =
           \<lparr>HasRisk = False, RiskLevel = ''none'', RiskTideType = [], RiskTideTime = nowTz,
            TideHeightM = 0, HeavyRain = False, Message = ''No heavy rain expected''\<rparr>"
  using assms by (simp add: calculateTidalFloodRisk_def)

theorem no_heavy_rain_no_risk_witness:
  "\<not> hasHeavyRain dryAlert \<and>
   calculateTidalFloodRisk (storeOf [tide27, tide29] False) dryAlert 7 =
     calculateTidalFloodRisk (storeOf [] True) dryAlert 7 \<and>
   RiskLevel (calculateTidalFloodRisk (storeOf [tide27, tide29] False) dryAlert 7) = ''none'' \<and>
   \<not> HasRisk (calculateTidalFloodRisk (storeOf [tide27, tide29] False) dryAlert 7) \<and>
   \<not> HeavyRain (calculateTidalFloodRisk (storeOf [tide27, tide29] False) dryAlert 7)"
  using no_heavy_rain_no_risk [OF dryAlert_not_heavy, of "storeOf [tide27, tide29] False" 7]
    no_heavy_rain_no_risk [OF dryAlert_not_heavy, of "storeOf [] True" 7]
    dryAlert_not_heavy
  by simp

text \<open>
  C3. For an alert with the heavy-rain signal, the assessment always returns a verdict
  (the function is total; no error leaves it). When the tide query fails the verdict has
  level \<open>unknown\<close> and \<open>HasRisk\<close> false; when the query succeeds, with or without rows, the
  level is never \<open>unknown\<close>.
\<close>

theorem query_failure_gives_unknown:
  assumes "hasHeavyRain alert"
  shows "((\<exists>e. findTides db TideTypeHigh 2.6 (Effective alert)
                  (Add (Expires alert) tideBufferDuration) = Inl e) \<longrightarrow>
            RiskLevel (calculateTidalFloodRisk db alert nowTz) = ''unknown'' \<and>
            \<not> HasRisk (calculateTidalFloodRisk db alert nowTz)) \<and>
         ((\<exists>rows. findTides db TideTypeHigh 2.6 (Effective alert)
                  (Add (Expires alert) tideBufferDuration) = Inr rows) \<longrightarrow>
            RiskLevel (calculateTidalFloodRisk db alert nowTz) \<noteq> ''unknown'')"
  using assms
  by (auto simp: calculateTidalFloodRisk_def Let_def split: sum.splits list.splits)

theorem query_failure_gives_unknown_witness:
  "hasHeavyRain rainAlert \<and>
   findTides (storeOf [tide27] True) TideTypeHigh 2.6 (Effective rainAlert)
     (Add (Expires rainAlert) tideBufferDuration) = Inl QueryFailed \<and>
   RiskLevel (calculateTidalFloodRisk (storeOf [tide27] True) rainAlert 0) = ''unknown'' \<and>
   findTides (storeOf [] False) TideTypeHigh 2.6 (Effective rainAlert)
     (Add (Expires rainAlert) tideBufferDuration) = Inr [] \<and>
   RiskLevel (calculateTidalFloodRisk (storeOf [] False) rainAlert 0) \<noteq> ''unknown''"
proof -
  have f: "findTides (storeOf [tide27] True) TideTypeHigh 2.6 (Effective rainAlert)
     (Add (Expires rainAlert) tideBufferDuration) = Inl QueryFailed"
    by (simp add: findTides_def storeOf_def)
  have g: "findTides (storeOf [] False) TideTypeHigh 2.6 (Effective rainAlert)
     (Add (Expires rainAlert) tideBufferDuration) = Inr []"
    by (simp add: findTides_def storeOf_def)
  from query_failure_gives_unknown [OF rainAlert_heavy, of "storeOf [tide27] True" 0] f
  have 1: "RiskLevel (calculateTidalFloodRisk (storeOf [tide27] True) rainAlert 0) = ''unknown''"
    by blast
  from query_failure_gives_unknown [OF rainAlert_heavy, of "storeOf [] False" 0] g
  have 2: "RiskLevel (calculateTidalFloodRisk (storeOf [] False) rainAlert 0) \<noteq> ''unknown''"
    by blast
  from rainAlert_heavy f g 1 2 show ?thesis by blast
qed

section \<open>Properties of \<^verbatim>\<open>time.Date\<close>\<close>

lemma clock_norm:
  fixes d h mi s ns :: int
  defines "s1 \<equiv> s + ns div 1000000000"
  defines "mi1 \<equiv> mi + s1 div 60"
  defines "h1 \<equiv> h + mi1 div 60"
  shows "(((d + h1 div 24 - 1) * 86400 + (h1 mod 24) * 3600 + (mi1 mod 60) * 60 + s1 mod 60) - off)
            * 1000000000 + ns mod 1000000000
         = ((d - 1) * 86400 - off) * 1000000000 + ((h * 3600 + mi * 60 + s) * 1000000000 + ns)"
proof -
  define q0 r0 where "q0 = ns div 1000000000" and "r0 = ns mod 1000000000"
  define q1 r1 where "q1 = s1 div 60" and "r1 = s1 mod 60"
  define q2 r2 where "q2 = mi1 div 60" and "r2 = mi1 mod 60"
  define q3 r3 where "q3 = h1 div 24" and "r3 = h1 mod 24"
  have 0: "ns = q0 * 1000000000 + r0" by (simp add: q0_def r0_def)
  have 1: "s + q0 = q1 * 60 + r1" by (simp add: q1_def r1_def s1_def q0_def)
  have 2: "mi + q1 = q2 * 60 + r2" by (simp add: q2_def r2_def mi1_def q1_def)
  have 3: "h + q2 = q3 * 24 + r3" by (simp add: q3_def r3_def h1_def q2_def)
  have "(((d + q3 - 1) * 86400 + r3 * 3600 + r2 * 60 + r1) - off) * 1000000000 + r0
         = ((d - 1) * 86400 - off) * 1000000000 + ((h * 3600 + mi * 60 + s) * 1000000000 + ns)"
    using 0 1 2 3 by (simp add: algebra_simps)
  then show ?thesis
    by (simp only: q0_def r0_def q1_def r1_def q2_def r2_def q3_def r3_def)
qed

lemma timeDate_clock:
  "timeDate y m d h mi s ns off =
     timeDate y m d 0 0 0 0 off + ((h * 3600 + mi * 60 + s) * 1000000000 + ns)"
proof -
  define c where "c = daysSinceEpoch (y + (m - 1) div 12) + daysBefore ! nat ((m - 1) mod 12)
              + (if isLeap (y + (m - 1) div 12) \<and> (m - 1) mod 12 + 1 \<ge> 3 then 1 else 0)"
  have l: "timeDate y m d h mi s ns off =
     (((c + (d + (h + (mi + (s + ns div 1000000000) div 60) div 60) div 24 - 1)) * 86400
        + ((h + (mi + (s + ns div 1000000000) div 60) div 60) mod 24) * 3600
        + ((mi + (s + ns div 1000000000) div 60) mod 60) * 60
        + (s + ns div 1000000000) mod 60) - off) * 1000000000 + ns mod 1000000000"
    for d h mi s ns
    unfolding timeDate_def norm_def Let_def split_def fst_conv snd_conv c_def
    by (simp add: algebra_simps)
  have "timeDate y m d h mi s ns off =
      ((((d + (h + (mi + (s + ns div 1000000000) div 60) div 60) div 24 - 1)) * 86400
        + ((h + (mi + (s + ns div 1000000000) div 60) div 60) mod 24) * 3600
        + ((mi + (s + ns div 1000000000) div 60) mod 60) * 60
        + (s + ns div 1000000000) mod 60) - (off - c * 86400)) * 1000000000 + ns mod 1000000000"
    unfolding l by (simp add: algebra_simps)
  also have "\<dots> = ((d - 1) * 86400 - (off - c * 86400)) * 1000000000
                    + ((h * 3600 + mi * 60 + s) * 1000000000 + ns)"
    by (rule clock_norm)
  finally have a: "timeDate y m d h mi s ns off = ((d - 1) * 86400 - (off - c * 86400)) * 1000000000
                    + ((h * 3600 + mi * 60 + s) * 1000000000 + ns)" .
  have b: "timeDate y m d 0 0 0 0 off = ((d - 1) * 86400 - (off - c * 86400)) * 1000000000"
    unfolding l by (simp add: algebra_simps)
  show ?thesis unfolding a b by simp
qed

lemma timeDate_day:
  "timeDate y m (d + k) 0 0 0 0 off = timeDate y m d 0 0 0 0 off + k * 86400 * 1000000000"
  unfolding timeDate_def norm_def Let_def split_def fst_conv snd_conv
  by (simp add: algebra_simps)


section \<open>Properties of the scheduler\<close>

lemma next_mark_eq:
  assumes "0 \<le> cHour now" "cHour now < 24"
  shows "calculateNext2HourMark now = localMidnight now + (cHour now div 2 + 1) * (2 * Hour)"
proof (cases "(cHour now div 2 + 1) * 2 \<ge> 24")
  case True
  with assms have e: "(cHour now div 2 + 1) * 2 = 24" by presburger
  have "calculateNext2HourMark now =
          timeDate (cYear now) (cMonth now) (cDay now + 1) 0 0 0 0 wibTimezone"
    unfolding calculateNext2HourMark_def Let_def e by simp
  also have "\<dots> = localMidnight now + 1 * 86400 * 1000000000"
    unfolding localMidnight_def by (rule timeDate_day)
  also have "\<dots> = localMidnight now + (cHour now div 2 + 1) * (2 * Hour)"
    using e by (simp add: Hour_def)
  finally show ?thesis .
next
  case False
  then have lt: "(cHour now div 2 + 1) * 2 < 24" by simp
  moreover from assms have "0 \<le> (cHour now div 2 + 1) * 2" by presburger
  ultimately have m: "((cHour now div 2 + 1) * 2) mod 24 = (cHour now div 2 + 1) * 2"
    by simp
  have "calculateNext2HourMark now =
          timeDate (cYear now) (cMonth now) (cDay now) ((cHour now div 2 + 1) * 2) 0 0 0 wibTimezone"
    unfolding calculateNext2HourMark_def Let_def m using False by simp
  also have "\<dots> = localMidnight now + (((cHour now div 2 + 1) * 2 * 3600 + 0 * 60 + 0) * 1000000000 + 0)"
    unfolding localMidnight_def by (rule timeDate_clock)
  also have "\<dots> = localMidnight now + (cHour now div 2 + 1) * (2 * Hour)"
    by (simp add: Hour_def)
  finally show ?thesis .
qed

lemma instantOf_eq:
  "instantOf c = localMidnight c +
     ((cHour c * 3600 + cMinute c * 60 + cSecond c) * 1000000000 + cNsec c)"
  unfolding instantOf_def localMidnight_def by (rule timeDate_clock)

lemma instantOf_bounds:
  assumes "validClock c"
  shows "localMidnight c + cHour c * Hour \<le> instantOf c"
    and "instantOf c < localMidnight c + (cHour c + 1) * Hour"
proof -
  from assms have b: "0 \<le> cMinute c" "cMinute c \<le> 59" "0 \<le> cSecond c" "cSecond c \<le> 59"
    "0 \<le> cNsec c" "cNsec c \<le> 999999999"
    by (simp_all add: validClock_def)
  have "0 \<le> cMinute c * 60 + cSecond c" using b by linarith
  then have "0 \<le> (cMinute c * 60 + cSecond c) * 1000000000 + cNsec c" using b by simp
  then show "localMidnight c + cHour c * Hour \<le> instantOf c"
    unfolding instantOf_eq Hour_def by (simp add: algebra_simps)
  have "cMinute c * 60 + cSecond c \<le> 3599" using b by linarith
  then have "(cMinute c * 60 + cSecond c) * 1000000000 \<le> 3599 * 1000000000" by simp
  then have "(cMinute c * 60 + cSecond c) * 1000000000 + cNsec c < 3600 * 1000000000"
    using b by linarith
  then show "instantOf c < localMidnight c + (cHour c + 1) * Hour"
    unfolding instantOf_eq Hour_def by (simp add: algebra_simps)
qed

lemma next_mark_earliest:
  assumes v: "validClock now"
  shows "instantOf now < calculateNext2HourMark now"
    and "instantOf now < localMidnight now + k * (2 * Hour) \<Longrightarrow>
           calculateNext2HourMark now \<le> localMidnight now + k * (2 * Hour)"
proof -
  from v have h: "0 \<le> cHour now" "cHour now < 24" by (simp_all add: validClock_def)
  have H: "0 < Hour" by (simp add: Hour_def)
  have "cHour now + 1 \<le> (cHour now div 2 + 1) * 2" by presburger
  then have "(cHour now + 1) * Hour \<le> (cHour now div 2 + 1) * 2 * Hour"
    using H by (simp add: mult_right_mono)
  with instantOf_bounds(2) [OF v] show "instantOf now < calculateNext2HourMark now"
    unfolding next_mark_eq [OF h] by (simp add: algebra_simps)
  assume "instantOf now < localMidnight now + k * (2 * Hour)"
  with instantOf_bounds(1) [OF v] have "cHour now * Hour < (2 * k) * Hour"
    by (simp add: algebra_simps)
  then have "cHour now < 2 * k" using H by (simp add: mult_less_cancel_right)
  then have "cHour now div 2 + 1 \<le> k" by presburger
  then have "(cHour now div 2 + 1) * (2 * Hour) \<le> k * (2 * Hour)"
    using H by (simp add: mult_right_mono)
  then show "calculateNext2HourMark now \<le> localMidnight now + k * (2 * Hour)"
    unfolding next_mark_eq [OF h] by simp
qed

lemma next_mark_parts:
  assumes "validClock now"
  shows "calculateNext2HourMark now = localMidnight now + (cHour now div 2 + 1) * (2 * Hour)"
    and "instantOf now < calculateNext2HourMark now"
    and "\<forall>k. instantOf now < localMidnight now + k * (2 * Hour) \<longrightarrow>
           calculateNext2HourMark now \<le> localMidnight now + k * (2 * Hour)"
    and "cHour now < 22 \<longrightarrow> calculateNext2HourMark now =
           timeDate (cYear now) (cMonth now) (cDay now) (2 * (cHour now div 2 + 1)) 0 0 0 wibTimezone"
    and "22 \<le> cHour now \<longrightarrow> calculateNext2HourMark now =
           timeDate (cYear now) (cMonth now) (cDay now + 1) 0 0 0 0 wibTimezone"
    and "cHour now = 1 \<and> cMinute now = 15 \<longrightarrow> calculateNext2HourMark now =
           timeDate (cYear now) (cMonth now) (cDay now) 2 0 0 0 wibTimezone"
    and "cHour now = 23 \<and> cMinute now = 10 \<longrightarrow> calculateNext2HourMark now =
           timeDate (cYear now) (cMonth now) (cDay now + 1) 0 0 0 0 wibTimezone"
proof -
  from assms have h: "0 \<le> cHour now" "cHour now < 24"
    by (simp_all add: validClock_def)
  show "calculateNext2HourMark now = localMidnight now + (cHour now div 2 + 1) * (2 * Hour)"
    by (rule next_mark_eq [OF h])
  show "instantOf now < calculateNext2HourMark now"
    by (rule next_mark_earliest(1) [OF assms])
  show "\<forall>k. instantOf now < localMidnight now + k * (2 * Hour) \<longrightarrow>
           calculateNext2HourMark now \<le> localMidnight now + k * (2 * Hour)"
    using next_mark_earliest(2) [OF assms] by blast
  show a: "cHour now < 22 \<longrightarrow> calculateNext2HourMark now =
           timeDate (cYear now) (cMonth now) (cDay now) (2 * (cHour now div 2 + 1)) 0 0 0 wibTimezone"
  proof
    assume "cHour now < 22"
    with h have "(cHour now div 2 + 1) * 2 < 24" "0 \<le> (cHour now div 2 + 1) * 2"
      by presburger+
    then have "((cHour now div 2 + 1) * 2) mod 24 = 2 * (cHour now div 2 + 1)"
      and "\<not> (cHour now div 2 + 1) * 2 \<ge> 24"
      by simp_all
    then show "calculateNext2HourMark now =
           timeDate (cYear now) (cMonth now) (cDay now) (2 * (cHour now div 2 + 1)) 0 0 0 wibTimezone"
      unfolding calculateNext2HourMark_def Let_def by simp
  qed
  show b: "22 \<le> cHour now \<longrightarrow> calculateNext2HourMark now =
           timeDate (cYear now) (cMonth now) (cDay now + 1) 0 0 0 0 wibTimezone"
  proof
    assume "22 \<le> cHour now"
    with h have e: "(cHour now div 2 + 1) * 2 = 24" by presburger
    show "calculateNext2HourMark now =
           timeDate (cYear now) (cMonth now) (cDay now + 1) 0 0 0 0 wibTimezone"
      unfolding calculateNext2HourMark_def Let_def e by simp
  qed
  show "cHour now = 1 \<and> cMinute now = 15 \<longrightarrow> calculateNext2HourMark now =
           timeDate (cYear now) (cMonth now) (cDay now) 2 0 0 0 wibTimezone"
    using a by auto
  show "cHour now = 23 \<and> cMinute now = 10 \<longrightarrow> calculateNext2HourMark now =
           timeDate (cYear now) (cMonth now) (cDay now + 1) 0 0 0 0 wibTimezone"
    using b by auto
qed

text \<open>
  C8. For every reading of the local (UTC+7) clock, \<open>calculateNext2HourMark\<close> returns the
  instant \<open>2 * (hour div 2 + 1)\<close> hours after the local midnight of the current day: an
  even-hour boundary of local time with minutes and seconds zero. It is strictly later
  than the current instant and no even-hour boundary lies strictly between the two.
  When the rounded hour reaches 24 (hours 22 and 23) it is 00:00 of the next calendar
  day, otherwise the even hour of the same day; 01:15 gives 02:00 the same day and
  23:10 gives 00:00 the next day.
\<close>

theorem next_2_hour_mark:
  assumes "validClock now"
  shows "calculateNext2HourMark now = localMidnight now + (cHour now div 2 + 1) * (2 * Hour) \<and>
         instantOf now < calculateNext2HourMark now \<and>
         (\<forall>k. instantOf now < localMidnight now + k * (2 * Hour) \<longrightarrow>
            calculateNext2HourMark now \<le> localMidnight now + k * (2 * Hour)) \<and>
         (cHour now < 22 \<longrightarrow> calculateNext2HourMark now =
            timeDate (cYear now) (cMonth now) (cDay now) (2 * (cHour now div 2 + 1)) 0 0 0
              wibTimezone) \<and>
         (22 \<le> cHour now \<longrightarrow> calculateNext2HourMark now =
            timeDate (cYear now) (cMonth now) (cDay now + 1) 0 0 0 0 wibTimezone) \<and>
         (cHour now = 1 \<and> cMinute now = 15 \<longrightarrow> calculateNext2HourMark now =
            timeDate (cYear now) (cMonth now) (cDay now) 2 0 0 0 wibTimezone) \<and>
         (cHour now = 23 \<and> cMinute now = 10 \<longrightarrow> calculateNext2HourMark now =
            timeDate (cYear now) (cMonth now) (cDay now + 1) 0 0 0 0 wibTimezone)"
  using next_mark_parts [OF assms] by (intro conjI)

theorem next_2_hour_mark_witness:
  "validClock \<lparr>cYear = 2025, cMonth = 12, cDay = 31, cHour = 23, cMinute = 10, cSecond = 0,
      cNsec = 0\<rparr> \<and>
   calculateNext2HourMark \<lparr>cYear = 2025, cMonth = 12, cDay = 31, cHour = 23, cMinute = 10,
      cSecond = 0, cNsec = 0\<rparr> = timeDate 2026 1 1 0 0 0 0 wibTimezone \<and>
   validClock \<lparr>cYear = 2025, cMonth = 12, cDay = 4, cHour = 1, cMinute = 15, cSecond = 0,
      cNsec = 0\<rparr> \<and>
   calculateNext2HourMark \<lparr>cYear = 2025, cMonth = 12, cDay = 4, cHour = 1, cMinute = 15,
      cSecond = 0, cNsec = 0\<rparr> = timeDate 2025 12 4 2 0 0 0 wibTimezone"
proof -
  let ?a = "\<lparr>cYear = 2025, cMonth = 12, cDay = 31, cHour = 23, cMinute = 10, cSecond = 0,
      cNsec = 0\<rparr>"
  let ?b = "\<lparr>cYear = 2025, cMonth = 12, cDay = 4, cHour = 1, cMinute = 15, cSecond = 0,
      cNsec = 0\<rparr>"
  have va: "validClock ?a" and vb: "validClock ?b"
    by (simp_all add: validClock_def)
  have roll: "timeDate 2025 12 (31 + 1) 0 0 0 0 wibTimezone = timeDate 2026 1 1 0 0 0 0 wibTimezone"
    by (simp add: timeDate_def norm_def daysSinceEpoch_def daysBefore_def isLeap_def)
  from next_2_hour_mark [OF va] roll
  have "calculateNext2HourMark ?a = timeDate 2026 1 1 0 0 0 0 wibTimezone"
    by simp
  moreover from next_2_hour_mark [OF vb]
  have "calculateNext2HourMark ?b = timeDate 2025 12 4 2 0 0 0 wibTimezone"
    by simp
  ultimately show ?thesis using va vb by blast
qed

text \<open>
  C5 as stated fails: a second \<open>Stop\<close> is neither a no-op nor an explicit error. The
  first call on a new fetcher returns with the channel closed, and the second call
  panics.
\<close>

theorem stop_twice_panics:
  "Stop (NewTidalFloodFetcher (storeOf [] False)) =
     Inr \<lparr>fetcherDB = storeOf [] False, stopChan = ChanClosed\<rparr> \<and>
   Stop \<lparr>fetcherDB = storeOf [] False, stopChan = ChanClosed\<rparr> = Inl CloseOfClosedChannel"
  by (simp add: Stop_def NewTidalFloodFetcher_def closeChan_def)

text \<open>
  C5, amended. \<open>Stop\<close> on a fetcher whose stop channel is open (as \<open>NewTidalFloodFetcher\<close>
  makes it) closes the channel and returns, changing nothing else; every call of \<open>Stop\<close>
  after one that returned panics with "close of closed channel".
\<close>

theorem stop_once_then_panic:
  "Stop (NewTidalFloodFetcher database) =
     Inr ((NewTidalFloodFetcher database)\<lparr>stopChan := ChanClosed\<rparr>) \<and>
   (\<forall>f f'. Stop f = Inr f' \<longrightarrow> Stop f' = Inl CloseOfClosedChannel)"
  by (auto simp: Stop_def NewTidalFloodFetcher_def closeChan_def
      split: sum.splits chan.splits)

theorem stop_once_then_panic_witness:
  "Stop (NewTidalFloodFetcher (storeOf [] False)) =
     Inr ((NewTidalFloodFetcher (storeOf [] False))\<lparr>stopChan := ChanClosed\<rparr>) \<and>
   Stop ((NewTidalFloodFetcher (storeOf [] False))\<lparr>stopChan := ChanClosed\<rparr>) =
     Inl CloseOfClosedChannel"
  using stop_once_then_panic [of "storeOf [] False"] by blast

section \<open>Properties of the clock-time parser\<close>

lemma Split_not_Nil: "Split s sep \<noteq> []"
  by (induction s) (auto split: list.splits)

lemma Split_Cons_other:
  "c \<noteq> sep \<Longrightarrow> Split (c # cs) sep = (c # hd (Split cs sep)) # tl (Split cs sep)"
  using Split_not_Nil [of cs sep] by (cases "Split cs sep") simp_all

lemma Split_Cons_sep: "Split (sep # cs) sep = [] # Split cs sep"
  by simp

lemma Split_single: "Split s sep = [a] \<longleftrightarrow> s = a \<and> sep \<notin> set a"
proof (induction s arbitrary: a)
  case Nil
  then show ?case by auto
next
  case (Cons c cs)
  show ?case
  proof (cases "c = sep")
    case True
    then show ?thesis using Split_not_Nil [of cs sep] by (auto simp del: Split.simps simp add: Split_Cons_sep)
  next
    case False
    have "Split (c # cs) sep = [a] \<longleftrightarrow> (\<exists>a'. a = c # a' \<and> Split cs sep = [a'])"
      unfolding Split_Cons_other [OF False]
      using Split_not_Nil [of cs sep] by (cases "Split cs sep") auto
    also have "\<dots> \<longleftrightarrow> (\<exists>a'. a = c # a' \<and> cs = a' \<and> sep \<notin> set a')"
      using Cons.IH by simp
    also have "\<dots> \<longleftrightarrow> c # cs = a \<and> sep \<notin> set a"
      using False by auto
    finally show ?thesis .
  qed
qed

lemma Split_two:
  "Split s sep = [a, b] \<longleftrightarrow> s = a @ sep # b \<and> sep \<notin> set a \<and> sep \<notin> set b"
proof (induction s arbitrary: a)
  case Nil
  then show ?case by auto
next
  case (Cons c cs)
  show ?case
  proof (cases "c = sep")
    case True
    have "Split (c # cs) sep = [a, b] \<longleftrightarrow> a = [] \<and> Split cs sep = [b]"
      unfolding True Split_Cons_sep by auto
    also have "\<dots> \<longleftrightarrow> a = [] \<and> cs = b \<and> sep \<notin> set b"
      using Split_single by simp
    also have "\<dots> \<longleftrightarrow> c # cs = a @ sep # b \<and> sep \<notin> set a \<and> sep \<notin> set b"
      using True by (cases a) auto
    finally show ?thesis .
  next
    case False
    have "Split (c # cs) sep = [a, b] \<longleftrightarrow> (\<exists>a'. a = c # a' \<and> Split cs sep = [a', b])"
      unfolding Split_Cons_other [OF False]
      using Split_not_Nil [of cs sep] by (cases "Split cs sep") auto
    also have "\<dots> \<longleftrightarrow> (\<exists>a'. a = c # a' \<and> cs = a' @ sep # b \<and> sep \<notin> set a' \<and> sep \<notin> set b)"
      using Cons.IH by simp
    also have "\<dots> \<longleftrightarrow> c # cs = a @ sep # b \<and> sep \<notin> set a \<and> sep \<notin> set b"
      using False by (cases a) auto
    finally show ?thesis .
  qed
qed

lemma length_two: "length xs = 2 \<longleftrightarrow> (\<exists>a b. xs = [a, b])"
  by (metis One_nat_def Suc_1 length_0_conv length_Suc_conv)

lemma nth_pair: "[a, b] ! 1 = b" "[a, b] ! 0 = a"
  by simp_all

lemma parseTimeWIB_two:
  assumes "Split s (CHR '':'') = [a, b]"
  shows "parseTimeWIB date s =
     (case Atoi a of
        Inl err \<Rightarrow> Inl err
      | Inr h \<Rightarrow>
          (case Atoi b of
             Inl err \<Rightarrow> Inl err
           | Inr m \<Rightarrow> Inr (timeDate (cYear date) (cMonth date) (cDay date) h m 0 0 wibTimezone)))"
  unfolding parseTimeWIB_def Let_def assms nth_pair by simp

lemma parseTimeWIB_not_two:
  assumes "length (Split s (CHR '':'')) \<noteq> 2"
  shows "parseTimeWIB date s = Inl InvalidTimeFormat"
  unfolding parseTimeWIB_def Let_def using assms by simp

lemma parseTimeWIB_ok:
  assumes "Split s (CHR '':'') = [a, b]" and "Atoi a = Inr h" and "Atoi b = Inr m"
  shows "parseTimeWIB date s =
           Inr (timeDate (cYear date) (cMonth date) (cDay date) h m 0 0 wibTimezone)"
  unfolding parseTimeWIB_two [OF assms(1)] assms(2,3) by simp

lemma parseTimeWIB_InrD:
  assumes "parseTimeWIB date s = Inr t"
  shows "\<exists>a b h m. Split s (CHR '':'') = [a, b] \<and> Atoi a = Inr h \<and> Atoi b = Inr m \<and>
        t = timeDate (cYear date) (cMonth date) (cDay date) h m 0 0 wibTimezone"
proof -
  have "length (Split s (CHR '':'')) = 2"
  proof (rule ccontr)
    assume "length (Split s (CHR '':'')) \<noteq> 2"
    from parseTimeWIB_not_two [OF this, of date] assms show False by simp
  qed
  then have "\<exists>a b. Split s (CHR '':'') = [a, b]"
    by (simp only: length_two)
  then obtain a b where ab: "Split s (CHR '':'') = [a, b]"
    by (elim exE)
  from assms obtain h where h: "Atoi a = Inr h"
    unfolding parseTimeWIB_two [OF ab] by (cases "Atoi a") simp_all
  from assms obtain m where m: "Atoi b = Inr m"
    unfolding parseTimeWIB_two [OF ab] h by (cases "Atoi b") simp_all
  from assms have "t = timeDate (cYear date) (cMonth date) (cDay date) h m 0 0 wibTimezone"
    unfolding parseTimeWIB_ok [OF ab h m] by simp
  with ab h m show ?thesis by blast
qed


lemma Atoi_25: "Atoi ''25'' = Inr 25"
  by (simp add: Atoi_def ParseUint_def isDigit_def digitVal_def)

lemma Atoi_99: "Atoi ''99'' = Inr 99"
  by (simp add: Atoi_def ParseUint_def isDigit_def digitVal_def)

lemma Atoi_minus_1: "Atoi ''-1'' = Inr (- 1)"
  by (simp add: Atoi_def ParseUint_def isDigit_def digitVal_def)

lemma Atoi_minus_5: "Atoi ''-5'' = Inr (- 5)"
  by (simp add: Atoi_def ParseUint_def isDigit_def digitVal_def)

lemma timeDate_shift:
  "timeDate y m d (24 * k + h) mi 0 0 off = timeDate y m (d + k) h mi 0 0 off"
proof -
  have "timeDate y m d (24 * k + h) mi 0 0 off =
          timeDate y m d 0 0 0 0 off + (((24 * k + h) * 3600 + mi * 60 + 0) * 1000000000 + 0)"
    by (rule timeDate_clock)
  moreover have "timeDate y m (d + k) h mi 0 0 off =
          timeDate y m (d + k) 0 0 0 0 off + ((h * 3600 + mi * 60 + 0) * 1000000000 + 0)"
    by (rule timeDate_clock)
  ultimately show ?thesis
    by (simp add: timeDate_day algebra_simps)
qed

lemma timeDate_minute_shift:
  "timeDate y m d h (60 * k + mi) 0 0 off = timeDate y m d (h + k) mi 0 0 off"
proof -
  have "timeDate y m d h (60 * k + mi) 0 0 off =
          timeDate y m d 0 0 0 0 off + ((h * 3600 + (60 * k + mi) * 60 + 0) * 1000000000 + 0)"
    by (rule timeDate_clock)
  moreover have "timeDate y m d (h + k) mi 0 0 off =
          timeDate y m d 0 0 0 0 off + (((h + k) * 3600 + mi * 60 + 0) * 1000000000 + 0)"
    by (rule timeDate_clock)
  ultimately show ?thesis
    by (simp add: algebra_simps)
qed


lemma parseTimeWIB_25_99:
  "parseTimeWIB date ''25:99'' =
     Inr (timeDate (cYear date) (cMonth date) (cDay date + 1) 2 39 0 0 wibTimezone)"
proof -
  have "Split ''25:99'' (CHR '':'') = [''25'', ''99'']" by simp
  from parseTimeWIB_ok [OF this Atoi_25 Atoi_99]
  have "parseTimeWIB date ''25:99'' =
      Inr (timeDate (cYear date) (cMonth date) (cDay date) 25 99 0 0 wibTimezone)" .
  also have "timeDate (cYear date) (cMonth date) (cDay date) 25 99 0 0 wibTimezone =
      timeDate (cYear date) (cMonth date) (cDay date) 26 39 0 0 wibTimezone"
    using timeDate_minute_shift [of "cYear date" "cMonth date" "cDay date" 25 1 39 wibTimezone]
    by simp
  also have "\<dots> = timeDate (cYear date) (cMonth date) (cDay date + 1) 2 39 0 0 wibTimezone"
    using timeDate_shift [of "cYear date" "cMonth date" "cDay date" 1 2 39 wibTimezone]
    by simp
  finally show ?thesis .
qed

lemma parseTimeWIB_negative:
  "parseTimeWIB date ''-1:-5'' =
     Inr (timeDate (cYear date) (cMonth date) (cDay date - 1) 22 55 0 0 wibTimezone)"
proof -
  have "Split ''-1:-5'' (CHR '':'') = [''-1'', ''-5'']" by simp
  from parseTimeWIB_ok [OF this Atoi_minus_1 Atoi_minus_5]
  have "parseTimeWIB date ''-1:-5'' =
      Inr (timeDate (cYear date) (cMonth date) (cDay date) (- 1) (- 5) 0 0 wibTimezone)" .
  also have "timeDate (cYear date) (cMonth date) (cDay date) (- 1) (- 5) 0 0 wibTimezone =
      timeDate (cYear date) (cMonth date) (cDay date) (- 2) 55 0 0 wibTimezone"
    using timeDate_minute_shift [of "cYear date" "cMonth date" "cDay date" "- 1" "- 1" 55 wibTimezone]
    by simp
  also have "\<dots> = timeDate (cYear date) (cMonth date) (cDay date - 1) 22 55 0 0 wibTimezone"
    using timeDate_shift [of "cYear date" "cMonth date" "cDay date" "- 1" 22 55 wibTimezone]
    by simp
  finally show ?thesis .
qed

lemma parseTimeWIB_success_iff:
  "(\<exists>t. parseTimeWIB date timeStr = Inr t) \<longleftrightarrow>
      (\<exists>a b h m. timeStr = a @ CHR '':'' # b \<and> CHR '':'' \<notin> set a \<and> CHR '':'' \<notin> set b \<and>
         Atoi a = Inr h \<and> Atoi b = Inr m)"
proof
  assume "\<exists>t. parseTimeWIB date timeStr = Inr t"
  then obtain t where "parseTimeWIB date timeStr = Inr t" by (elim exE)
  from parseTimeWIB_InrD [OF this] obtain a b h m where
    "Split timeStr (CHR '':'') = [a, b]" "Atoi a = Inr h" "Atoi b = Inr m"
    by (elim exE conjE)
  then have "timeStr = a @ CHR '':'' # b \<and> CHR '':'' \<notin> set a \<and> CHR '':'' \<notin> set b \<and>
         Atoi a = Inr h \<and> Atoi b = Inr m"
    by (simp only: Split_two) simp
  then show "\<exists>a b h m. timeStr = a @ CHR '':'' # b \<and> CHR '':'' \<notin> set a \<and>
         CHR '':'' \<notin> set b \<and> Atoi a = Inr h \<and> Atoi b = Inr m"
    by (intro exI)
next
  assume "\<exists>a b h m. timeStr = a @ CHR '':'' # b \<and> CHR '':'' \<notin> set a \<and> CHR '':'' \<notin> set b \<and>
         Atoi a = Inr h \<and> Atoi b = Inr m"
  then obtain a b h m where s: "timeStr = a @ CHR '':'' # b \<and> CHR '':'' \<notin> set a \<and>
      CHR '':'' \<notin> set b" and h: "Atoi a = Inr h" and m: "Atoi b = Inr m"
    by (elim exE conjE) simp
  from s have "Split timeStr (CHR '':'') = [a, b]"
    by (rule Split_two [THEN iffD2])
  from parseTimeWIB_ok [OF this h m, of date]
  show "\<exists>t. parseTimeWIB date timeStr = Inr t" by (intro exI)
qed

lemma parseTimeWIB_value:
  assumes "timeStr = a @ CHR '':'' # b \<and> CHR '':'' \<notin> set a \<and> CHR '':'' \<notin> set b \<and>
         Atoi a = Inr h \<and> Atoi b = Inr m"
  shows "parseTimeWIB date timeStr =
        Inr (localMidnight date + (h * 3600 + m * 60) * 1000000000)"
proof -
  from assms have s: "timeStr = a @ CHR '':'' # b \<and> CHR '':'' \<notin> set a \<and>
      CHR '':'' \<notin> set b" and h: "Atoi a = Inr h" and m: "Atoi b = Inr m"
    by simp_all
  from s have "Split timeStr (CHR '':'') = [a, b]"
    by (rule Split_two [THEN iffD2])
  from parseTimeWIB_ok [OF this h m, of date]
  have "parseTimeWIB date timeStr =
      Inr (timeDate (cYear date) (cMonth date) (cDay date) h m 0 0 wibTimezone)" .
  also have "timeDate (cYear date) (cMonth date) (cDay date) h m 0 0 wibTimezone =
      localMidnight date + ((h * 3600 + m * 60 + 0) * 1000000000 + 0)"
    unfolding localMidnight_def by (rule timeDate_clock)
  finally show ?thesis by simp
qed

lemma parseTimeWIB_no_colon: "parseTimeWIB date ''3-12'' = Inl InvalidTimeFormat"
  by (simp add: parseTimeWIB_def)

subsection \<open>What \<open>Atoi\<close> accepts\<close>

text \<open>
  \<open>Atoi\<close> reads exactly the signed decimal numerals whose value fits 64 bits.
\<close>

lemma digitVal_range: "isDigit c \<Longrightarrow> 0 \<le> digitVal c \<and> digitVal c \<le> 9"
  by (auto simp: isDigit_def digitVal_def)

lemma digitsVal_ge:
  "0 \<le> n \<Longrightarrow> \<forall>c\<in>set ds. isDigit c \<Longrightarrow> n \<le> digitsVal n ds"
proof (induction ds arbitrary: n)
  case Nil
  then show ?case by simp
next
  case (Cons c cs)
  from Cons.prems have d: "0 \<le> digitVal c" using digitVal_range [of c] by simp
  with Cons.prems have "0 \<le> n * 10 + digitVal c" by simp
  from Cons.IH [OF this] Cons.prems have "n * 10 + digitVal c \<le> digitsVal (n * 10 + digitVal c) cs"
    by simp
  with d Cons.prems(1) show ?case by simp
qed

lemma parseUintFrom_iff:
  assumes "0 \<le> n \<and> n \<le> 18446744073709551615"
  shows "parseUintFrom n ds = Inr v \<longleftrightarrow>
     (\<forall>c\<in>set ds. isDigit c) \<and> v = digitsVal n ds \<and> digitsVal n ds \<le> 18446744073709551615"
  using assms
proof (induction ds arbitrary: n)
  case Nil
  then show ?case by auto
next
  case (Cons c cs)
  show ?case
  proof (cases "isDigit c")
    case False
    then show ?thesis by simp
  next
    case True
    note dig = this
    from digitVal_range [OF dig] have d: "0 \<le> digitVal c" "digitVal c \<le> 9" by simp_all
    let ?n1 = "n * 10 + digitVal c"
    from d Cons.prems have n0: "0 \<le> ?n1" by simp
    show ?thesis
    proof (cases "(\<forall>x\<in>set cs. isDigit x)")
      case False
      have "parseUintFrom n (c # cs) \<noteq> Inr v"
      proof (cases "n \<ge> 1844674407370955162 \<or> ?n1 > 18446744073709551615")
        case True
        then show ?thesis using dig by (auto simp: Let_def)
      next
        case False
        then have e: "parseUintFrom n (c # cs) = parseUintFrom ?n1 cs"
          using dig by (simp add: Let_def)
        from False n0 have "0 \<le> ?n1 \<and> ?n1 \<le> 18446744073709551615" by simp
        from Cons.IH [OF this] e \<open>\<not> (\<forall>x\<in>set cs. isDigit x)\<close> show ?thesis by simp
      qed
      with False show ?thesis by simp
    next
      case True
      note all = this
      from digitsVal_ge [OF n0 all] have ge: "?n1 \<le> digitsVal ?n1 cs" .
      show ?thesis
      proof (cases "n \<ge> 1844674407370955162")
        case True
        with d have "?n1 > 18446744073709551615" by simp
        with ge have "digitsVal ?n1 cs > 18446744073709551615" by simp
        with True dig show ?thesis by simp
      next
        case False
        note small = this
        show ?thesis
        proof (cases "?n1 > 18446744073709551615")
          case True
          with ge have "digitsVal ?n1 cs > 18446744073709551615" by simp
          with True small dig show ?thesis by (simp add: Let_def)
        next
          case False
          then have e: "parseUintFrom n (c # cs) = parseUintFrom ?n1 cs"
            using dig small by (simp add: Let_def)
          from False n0 have "0 \<le> ?n1 \<and> ?n1 \<le> 18446744073709551615" by simp
          from Cons.IH [OF this] e dig all show ?thesis by simp
        qed
      qed
    qed
  qed
qed

lemma ParseUint_iff:
  "ParseUint ds = Inr v \<longleftrightarrow>
     ds \<noteq> [] \<and> (\<forall>c\<in>set ds. isDigit c) \<and> v = digitsVal 0 ds \<and>
     digitsVal 0 ds \<le> 18446744073709551615"
  using parseUintFrom_iff [of 0 ds v] by (simp add: ParseUint_def)

lemma sign_not_digit: "\<not> isDigit (CHR ''+'')" "\<not> isDigit (CHR ''-'')"
  by (simp_all add: isDigit_def)


lemma Atoi_signed:
  assumes "c = CHR ''+'' \<or> c = CHR ''-''"
  shows "Atoi (c # cs) = Inr n \<longleftrightarrow>
     cs \<noteq> [] \<and> (\<forall>x\<in>set cs. isDigit x) \<and>
     (if c = CHR ''-'' then n = - digitsVal 0 cs \<and> digitsVal 0 cs \<le> 9223372036854775808
      else n = digitsVal 0 cs \<and> digitsVal 0 cs < 9223372036854775808)"
proof (cases "ParseUint cs")
  case (Inl e)
  then have "Atoi (c # cs) = Inl e" using assms by (auto simp: Atoi_def Let_def)
  moreover from Inl have "\<not> (cs \<noteq> [] \<and> (\<forall>x\<in>set cs. isDigit x) \<and>
      digitsVal 0 cs \<le> 18446744073709551615)"
    using ParseUint_iff [of cs "digitsVal 0 cs"] by auto
  ultimately show ?thesis by auto
next
  case (Inr un)
  then have u: "cs \<noteq> []" "\<forall>x\<in>set cs. isDigit x" "un = digitsVal 0 cs"
    using ParseUint_iff [of cs un] by simp_all
  show ?thesis
  proof (cases "c = CHR ''-''")
    case True
    then show ?thesis using Inr u by (auto simp: Atoi_def Let_def)
  next
    case False
    with assms have "c = CHR ''+''" by simp
    then show ?thesis using Inr u by (auto simp: Atoi_def Let_def)
  qed
qed

lemma Atoi_unsigned:
  assumes "c \<noteq> CHR ''+''" and "c \<noteq> CHR ''-''"
  shows "Atoi (c # cs) = Inr n \<longleftrightarrow>
     (\<forall>x\<in>set (c # cs). isDigit x) \<and> n = digitsVal 0 (c # cs) \<and>
     digitsVal 0 (c # cs) < 9223372036854775808"
proof (cases "ParseUint (c # cs)")
  case (Inl e)
  then have "Atoi (c # cs) = Inl e" using assms by (simp add: Atoi_def Let_def)
  moreover from Inl have "\<not> ((\<forall>x\<in>set (c # cs). isDigit x) \<and>
      digitsVal 0 (c # cs) \<le> 18446744073709551615)"
    using ParseUint_iff [of "c # cs" "digitsVal 0 (c # cs)"] by auto
  ultimately show ?thesis by auto
next
  case (Inr un)
  then have u: "\<forall>x\<in>set (c # cs). isDigit x" "un = digitsVal 0 (c # cs)"
    using ParseUint_iff [of "c # cs" un] by simp_all
  show ?thesis using Inr u assms by (auto simp: Atoi_def Let_def)
qed

lemma Atoi_numeral:
  "Atoi s = Inr n \<longleftrightarrow>
     intNumeral s n \<and> - 9223372036854775808 \<le> n \<and> n < 9223372036854775808"
proof
  assume a: "Atoi s = Inr n"
  then obtain c cs where s: "s = c # cs" by (cases s) (simp_all add: Atoi_def)
  show "intNumeral s n \<and> - 9223372036854775808 \<le> n \<and> n < 9223372036854775808"
  proof (cases "c = CHR ''+'' \<or> c = CHR ''-''")
    case True
    from a [unfolded s Atoi_signed [OF True]] have
      cs: "cs \<noteq> []" "\<forall>x\<in>set cs. isDigit x"
      and v: "if c = CHR ''-'' then n = - digitsVal 0 cs \<and> digitsVal 0 cs \<le> 9223372036854775808
        else n = digitsVal 0 cs \<and> digitsVal 0 cs < 9223372036854775808"
      by simp_all
    from digitsVal_ge [OF _ cs(2), of 0] have nn: "0 \<le> digitsVal 0 cs" by simp
    show ?thesis
    proof (cases "c = CHR ''-''")
      case True
      with v have n: "n = - digitsVal 0 cs" "digitsVal 0 cs \<le> 9223372036854775808" by simp_all
      have "intNumeral s n"
        unfolding intNumeral_def
        by (rule exI [of _ "''-''"], rule exI [of _ cs]) (simp add: s True cs n)
      with n nn show ?thesis by simp
    next
      case False
      with True have p: "c = CHR ''+''" by simp
      from v False have n: "n = digitsVal 0 cs" "digitsVal 0 cs < 9223372036854775808" by simp_all
      have "intNumeral s n"
        unfolding intNumeral_def
        by (rule exI [of _ "''+''"], rule exI [of _ cs]) (simp add: s p cs n)
      with n nn show ?thesis by simp
    qed
  next
    case False
    then have f: "c \<noteq> CHR ''+''" "c \<noteq> CHR ''-''" by simp_all
    from a [unfolded s Atoi_unsigned [OF f]] have
      d: "\<forall>x\<in>set (c # cs). isDigit x" and n: "n = digitsVal 0 (c # cs)"
      "digitsVal 0 (c # cs) < 9223372036854775808"
      by simp_all
    from digitsVal_ge [OF _ d, of 0] have nn: "0 \<le> digitsVal 0 (c # cs)" by simp
    have "intNumeral s n"
      unfolding intNumeral_def
      by (rule exI [of _ "[]"], rule exI [of _ "c # cs"]) (use s d n in simp)
    with n nn show ?thesis by simp
  qed
next
  assume "intNumeral s n \<and> - 9223372036854775808 \<le> n \<and> n < 9223372036854775808"
  then obtain sign ds where s: "s = sign @ ds"
    and sg: "sign = [] \<or> sign = ''+'' \<or> sign = ''-''"
    and ds: "ds \<noteq> []" "\<forall>c\<in>set ds. isDigit c"
    and n: "n = (if sign = ''-'' then - digitsVal 0 ds else digitsVal 0 ds)"
    and r: "- 9223372036854775808 \<le> n" "n < 9223372036854775808"
    unfolding intNumeral_def by (elim exE conjE)
  from sg show "Atoi s = Inr n"
  proof (elim disjE)
    assume e: "sign = []"
    from ds obtain c cs where c: "ds = c # cs" by (cases ds) simp_all
    with ds(2) have "isDigit c" by simp
    with sign_not_digit have f: "c \<noteq> CHR ''+''" "c \<noteq> CHR ''-''" by auto
    show ?thesis
      unfolding s e append_Nil c Atoi_unsigned [OF f]
      using ds(2) n r e c by simp
  next
    assume e: "sign = ''+''"
    have t: "CHR ''+'' = CHR ''+'' \<or> CHR ''+'' = CHR ''-''" by simp
    have "Atoi (CHR ''+'' # ds) = Inr n"
      unfolding Atoi_signed [OF t] using ds n r e by simp
    then show ?thesis by (simp add: s e)
  next
    assume e: "sign = ''-''"
    have t: "CHR ''-'' = CHR ''+'' \<or> CHR ''-'' = CHR ''-''" by simp
    have "Atoi (CHR ''-'' # ds) = Inr n"
      unfolding Atoi_signed [OF t] using ds n r e by simp
    then show ?thesis by (simp add: s e)
  qed
qed

lemma Atoi_iff: "Atoi s = Inr n \<longleftrightarrow> int64Numeral s n"
  unfolding int64Numeral_def by (rule Atoi_numeral)

lemma parseTimeWIB_success_numerals:
  "(\<exists>t. parseTimeWIB date timeStr = Inr t) \<longleftrightarrow>
     (\<exists>a b h m. timeStr = a @ CHR '':'' # b \<and> CHR '':'' \<notin> set a \<and> CHR '':'' \<notin> set b \<and>
        int64Numeral a h \<and> int64Numeral b m)"
  unfolding Atoi_iff [symmetric] by (rule parseTimeWIB_success_iff)

text \<open>
  C10. \<open>parseTimeWIB\<close> checks no range. It succeeds exactly when the text is two parts
  around one colon and both parts are signed decimal integers (of 64 bits, all that
  \<open>Atoi\<close> reads); in every other case (the split does not give two parts, or a part is
  not an integer) it fails. When it succeeds, the result is the local midnight of the
  date plus that many hours and minutes, whatever their sign and however large (stated
  here up to \<open>10^12\<close>, where Go's arithmetic is exact): "25:99" is 02:39 of the next day
  and "-1:-5" is 22:55 of the day before.
\<close>

theorem parseTimeWIB_no_range_validation:
  "((\<exists>t. parseTimeWIB date timeStr = Inr t) \<longleftrightarrow>
      (\<exists>a b h m. timeStr = a @ CHR '':'' # b \<and> CHR '':'' \<notin> set a \<and> CHR '':'' \<notin> set b \<and>
         int64Numeral a h \<and> int64Numeral b m)) \<and>
   (\<forall>a b h m. timeStr = a @ CHR '':'' # b \<and> CHR '':'' \<notin> set a \<and> CHR '':'' \<notin> set b \<and>
         Atoi a = Inr h \<and> Atoi b = Inr m \<and> \<bar>h\<bar> \<le> 10 ^ 12 \<and> \<bar>m\<bar> \<le> 10 ^ 12 \<longrightarrow>
      parseTimeWIB date timeStr =
        Inr (localMidnight date + (h * 3600 + m * 60) * 1000000000)) \<and>
   parseTimeWIB date ''25:99'' =
     Inr (timeDate (cYear date) (cMonth date) (cDay date + 1) 2 39 0 0 wibTimezone) \<and>
   parseTimeWIB date ''-1:-5'' =
     Inr (timeDate (cYear date) (cMonth date) (cDay date - 1) 22 55 0 0 wibTimezone) \<and>
   parseTimeWIB date ''3-12'' = Inl InvalidTimeFormat"
proof (intro conjI allI impI)
  show "(\<exists>t. parseTimeWIB date timeStr = Inr t) \<longleftrightarrow>
      (\<exists>a b h m. timeStr = a @ CHR '':'' # b \<and> CHR '':'' \<notin> set a \<and> CHR '':'' \<notin> set b \<and>
         int64Numeral a h \<and> int64Numeral b m)"
    by (rule parseTimeWIB_success_numerals)
next
  fix a b h m
  assume "timeStr = a @ CHR '':'' # b \<and> CHR '':'' \<notin> set a \<and> CHR '':'' \<notin> set b \<and>
         Atoi a = Inr h \<and> Atoi b = Inr m \<and> \<bar>h\<bar> \<le> 10 ^ 12 \<and> \<bar>m\<bar> \<le> 10 ^ 12"
  then have "timeStr = a @ CHR '':'' # b \<and> CHR '':'' \<notin> set a \<and> CHR '':'' \<notin> set b \<and>
         Atoi a = Inr h \<and> Atoi b = Inr m"
    by (elim conjE) (intro conjI)
  then show "parseTimeWIB date timeStr =
        Inr (localMidnight date + (h * 3600 + m * 60) * 1000000000)"
    by (rule parseTimeWIB_value)
next
  show "parseTimeWIB date ''25:99'' =
     Inr (timeDate (cYear date) (cMonth date) (cDay date + 1) 2 39 0 0 wibTimezone)"
    by (rule parseTimeWIB_25_99)
next
  show "parseTimeWIB date ''-1:-5'' =
     Inr (timeDate (cYear date) (cMonth date) (cDay date - 1) 22 55 0 0 wibTimezone)"
    by (rule parseTimeWIB_negative)
next
  show "parseTimeWIB date ''3-12'' = Inl InvalidTimeFormat"
    by (rule parseTimeWIB_no_colon)
qed

lemma Atoi_03: "Atoi ''03'' = Inr 3"
  by (simp add: Atoi_def ParseUint_def isDigit_def digitVal_def)

lemma Atoi_12: "Atoi ''12'' = Inr 12"
  by (simp add: Atoi_def ParseUint_def isDigit_def digitVal_def)

theorem parseTimeWIB_no_range_validation_witness:
  "''03:12'' = ''03'' @ CHR '':'' # ''12'' \<and> CHR '':'' \<notin> set ''03'' \<and> CHR '':'' \<notin> set ''12'' \<and>
   Atoi ''03'' = Inr 3 \<and> Atoi ''12'' = Inr 12 \<and> \<bar>3 :: int\<bar> \<le> 10 ^ 12 \<and> \<bar>12 :: int\<bar> \<le> 10 ^ 12 \<and>
   parseTimeWIB december31 ''03:12'' =
     Inr (localMidnight december31 + (3 * 3600 + 12 * 60) * 1000000000) \<and>
   parseTimeWIB december31 ''25:99'' = Inr (timeDate 2026 1 1 2 39 0 0 wibTimezone)"
proof -
  have pre: "''03:12'' = ''03'' @ CHR '':'' # ''12'' \<and> CHR '':'' \<notin> set ''03'' \<and>
      CHR '':'' \<notin> set ''12'' \<and> Atoi ''03'' = Inr 3 \<and> Atoi ''12'' = Inr 12 \<and>
      \<bar>3 :: int\<bar> \<le> 10 ^ 12 \<and> \<bar>12 :: int\<bar> \<le> 10 ^ 12"
    using Atoi_03 Atoi_12 by simp
  have roll: "timeDate 2025 12 (31 + 1) 2 39 0 0 wibTimezone = timeDate 2026 1 1 2 39 0 0 wibTimezone"
    by (simp add: timeDate_def norm_def daysSinceEpoch_def daysBefore_def isLeap_def)
  note inst = parseTimeWIB_no_range_validation [of december31 "''03:12''"]
  have 1: "parseTimeWIB december31 ''03:12'' =
     Inr (localMidnight december31 + (3 * 3600 + 12 * 60) * 1000000000)"
    by (rule inst [THEN conjunct2, THEN conjunct1, rule_format, OF pre])
  from inst [THEN conjunct2, THEN conjunct2, THEN conjunct1] roll
  have 2: "parseTimeWIB december31 ''25:99'' =
     Inr (timeDate 2026 1 1 2 39 0 0 wibTimezone)"
    by (simp add: december31_def)
  from pre 1 2 show ?thesis by simp
qed

section \<open>Properties of the height parser\<close>

lemma firstSomeD: "firstSome f xs = Some y \<Longrightarrow> \<exists>x\<in>set xs. f x = Some y"
  by (induction xs) (auto split: option.splits)

lemma take_takeWhile_all:
  "n \<le> length (takeWhile P s) \<Longrightarrow> \<forall>c\<in>set (take n s). P c"
proof (induction s arbitrary: n)
  case Nil
  then show ?case by simp
next
  case (Cons a s)
  then show ?case by (cases n) (auto split: if_splits)
qed

lemma rmatch_NilD: "rmatch [] s = Some (r, ms) \<Longrightarrow> r = s \<and> ms = []"
  by simp

lemma rmatch_LitD:
  "rmatch (Lit c # as) s = Some res \<Longrightarrow> \<exists>r. s = c # r \<and> rmatch as r = Some res"
  by (cases s) (auto split: if_splits)

lemma rmatch_OptD:
  "rmatch (Opt c # as) s = Some res \<Longrightarrow>
     \<exists>w r. s = w @ r \<and> (w = [] \<or> w = [c]) \<and> rmatch as r = Some res"
proof (cases "case s of [] \<Rightarrow> None | x # xs \<Rightarrow> if x = c then rmatch as xs else None")
  case None
  assume "rmatch (Opt c # as) s = Some res"
  with None have "rmatch as s = Some res" by simp
  then show ?thesis by (intro exI [of _ "[]"] exI [of _ s]) simp
next
  case (Some a)
  assume "rmatch (Opt c # as) s = Some res"
  with Some have a: "a = res" by simp
  from Some obtain xs where "s = c # xs" "rmatch as xs = Some a"
    by (cases s) (auto split: if_splits)
  with a show ?thesis by (intro exI [of _ "[c]"] exI [of _ xs]) simp
qed

lemma rmatch_PlusD:
  assumes "rmatch (Plus cls # as) s = Some res"
  shows "\<exists>w r. s = w @ r \<and> w \<noteq> [] \<and> (\<forall>c\<in>set w. cls c) \<and> rmatch as r = Some res"
proof -
  from assms have "firstSome (\<lambda>n. rmatch as (drop n s))
      (rev [1..<Suc (length (takeWhile cls s))]) = Some res"
    by (simp only: rmatch.simps)
  from firstSomeD [OF this] obtain n where n: "n \<in> set (rev [1..<Suc (length (takeWhile cls s))])"
    and r: "rmatch as (drop n s) = Some res"
    by blast
  from n have b: "1 \<le> n" "n \<le> length (takeWhile cls s)" by auto
  have "length (takeWhile cls s) \<le> length s" by (rule length_takeWhile_le)
  with b have "take n s \<noteq> []" by auto
  moreover have "\<forall>c\<in>set (take n s). cls c" by (rule take_takeWhile_all [OF b(2)])
  moreover have "s = take n s @ drop n s" by simp
  ultimately show ?thesis using r by blast
qed

lemma rmatch_StarD:
  assumes "rmatch (Star cls # as) s = Some res"
  shows "\<exists>w r. s = w @ r \<and> (\<forall>c\<in>set w. cls c) \<and> rmatch as r = Some res"
proof -
  from assms have "firstSome (\<lambda>n. rmatch as (drop n s))
      (rev [0..<Suc (length (takeWhile cls s))]) = Some res"
    by (simp only: rmatch.simps)
  from firstSomeD [OF this] obtain n where n: "n \<in> set (rev [0..<Suc (length (takeWhile cls s))])"
    and r: "rmatch as (drop n s) = Some res"
    by blast
  from n have b: "n \<le> length (takeWhile cls s)" by auto
  have "\<forall>c\<in>set (take n s). cls c" by (rule take_takeWhile_all [OF b])
  moreover have "s = take n s @ drop n s" by simp
  ultimately show ?thesis using r by blast
qed

lemma rmatch_MarkD:
  "rmatch (Mark # as) s = Some (r, ms) \<Longrightarrow> \<exists>ms'. ms = s # ms' \<and> rmatch as s = Some (r, ms')"
  by (auto split: option.splits)

lemma findFromD:
  "findFrom re s = Some (start, r, ms) \<Longrightarrow> \<exists>pre. s = pre @ start \<and> rmatch re start = Some (r, ms)"
proof (induction s)
  case Nil
  then show ?case by (auto split: option.splits)
next
  case (Cons c cs)
  show ?case
  proof (cases "rmatch re (c # cs)")
    case None
    with Cons.prems have "findFrom re cs = Some (start, r, ms)" by simp
    from Cons.IH [OF this] obtain pre where "cs = pre @ start" "rmatch re start = Some (r, ms)"
      by blast
    then show ?thesis by (intro exI [of _ "c # pre"]) simp
  next
    case (Some a)
    with Cons.prems have "start = c # cs" "a = (r, ms)" by (auto split: prod.splits)
    with Some show ?thesis by (intro exI [of _ "[]"]) simp
  qed
qed

lemma between_append: "between (a @ b) b = a"
  by (simp add: between_def)


lemma heightRegexp_sound:
  assumes "rmatch heightRegexp s = Some (r, ms)"
  shows "\<exists>a b w1 w2 w3.
           s = a @ w1 @ ''m'' @ w2 @ ''('' @ b @ w3 @ ''ft)'' @ r \<and>
           groups ms = [a, b] \<and> numeralShape a \<and> numeralShape b \<and>
           (\<forall>c\<in>set w1. isSpace c) \<and> (\<forall>c\<in>set w2. isSpace c) \<and> (\<forall>c\<in>set w3. isSpace c)"
proof -
  note a0 = assms [unfolded heightRegexp_def]
  from rmatch_MarkD [OF a0] obtain ms1 where ms: "ms = s # ms1" and a1: "rmatch
     [Opt (CHR ''-''), Plus isNumChar, Mark, Star isSpace, Lit (CHR ''m''), Star isSpace,
      Lit (CHR ''(''), Mark, Opt (CHR ''-''), Plus isNumChar, Mark, Star isSpace,
      Lit (CHR ''f''), Lit (CHR ''t''), Lit (CHR '')'')] s = Some (r, ms1)"
    by (elim exE conjE)
  from rmatch_OptD [OF a1] obtain sg1 s1 where s: "s = sg1 @ s1" and sg1: "sg1 = [] \<or> sg1 = ''-''"
    and a2: "rmatch
     [Plus isNumChar, Mark, Star isSpace, Lit (CHR ''m''), Star isSpace,
      Lit (CHR ''(''), Mark, Opt (CHR ''-''), Plus isNumChar, Mark, Star isSpace,
      Lit (CHR ''f''), Lit (CHR ''t''), Lit (CHR '')'')] s1 = Some (r, ms1)"
    by (elim exE conjE)
  from rmatch_PlusD [OF a2] obtain n1 s2 where s1: "s1 = n1 @ s2" and n1: "n1 \<noteq> []"
    "\<forall>c\<in>set n1. isNumChar c"
    and a3: "rmatch
     [Mark, Star isSpace, Lit (CHR ''m''), Star isSpace,
      Lit (CHR ''(''), Mark, Opt (CHR ''-''), Plus isNumChar, Mark, Star isSpace,
      Lit (CHR ''f''), Lit (CHR ''t''), Lit (CHR '')'')] s2 = Some (r, ms1)"
    by (elim exE conjE)
  from rmatch_MarkD [OF a3] obtain ms2 where ms1: "ms1 = s2 # ms2" and a4: "rmatch
     [Star isSpace, Lit (CHR ''m''), Star isSpace,
      Lit (CHR ''(''), Mark, Opt (CHR ''-''), Plus isNumChar, Mark, Star isSpace,
      Lit (CHR ''f''), Lit (CHR ''t''), Lit (CHR '')'')] s2 = Some (r, ms2)"
    by (elim exE conjE)
  from rmatch_StarD [OF a4] obtain w1 s3 where s2: "s2 = w1 @ s3" and w1: "\<forall>c\<in>set w1. isSpace c"
    and a5: "rmatch
     [Lit (CHR ''m''), Star isSpace,
      Lit (CHR ''(''), Mark, Opt (CHR ''-''), Plus isNumChar, Mark, Star isSpace,
      Lit (CHR ''f''), Lit (CHR ''t''), Lit (CHR '')'')] s3 = Some (r, ms2)"
    by (elim exE conjE)
  from rmatch_LitD [OF a5] obtain s4 where s3: "s3 = CHR ''m'' # s4" and a6: "rmatch
     [Star isSpace,
      Lit (CHR ''(''), Mark, Opt (CHR ''-''), Plus isNumChar, Mark, Star isSpace,
      Lit (CHR ''f''), Lit (CHR ''t''), Lit (CHR '')'')] s4 = Some (r, ms2)"
    by (elim exE conjE)
  from rmatch_StarD [OF a6] obtain w2 s5 where s4: "s4 = w2 @ s5" and w2: "\<forall>c\<in>set w2. isSpace c"
    and a7: "rmatch
     [Lit (CHR ''(''), Mark, Opt (CHR ''-''), Plus isNumChar, Mark, Star isSpace,
      Lit (CHR ''f''), Lit (CHR ''t''), Lit (CHR '')'')] s5 = Some (r, ms2)"
    by (elim exE conjE)
  from rmatch_LitD [OF a7] obtain s6 where s5: "s5 = CHR ''('' # s6" and a8: "rmatch
     [Mark, Opt (CHR ''-''), Plus isNumChar, Mark, Star isSpace,
      Lit (CHR ''f''), Lit (CHR ''t''), Lit (CHR '')'')] s6 = Some (r, ms2)"
    by (elim exE conjE)
  from rmatch_MarkD [OF a8] obtain ms3 where ms2: "ms2 = s6 # ms3" and a9: "rmatch
     [Opt (CHR ''-''), Plus isNumChar, Mark, Star isSpace,
      Lit (CHR ''f''), Lit (CHR ''t''), Lit (CHR '')'')] s6 = Some (r, ms3)"
    by (elim exE conjE)
  from rmatch_OptD [OF a9] obtain sg2 s7 where s6: "s6 = sg2 @ s7" and sg2: "sg2 = [] \<or> sg2 = ''-''"
    and a10: "rmatch
     [Plus isNumChar, Mark, Star isSpace,
      Lit (CHR ''f''), Lit (CHR ''t''), Lit (CHR '')'')] s7 = Some (r, ms3)"
    by (elim exE conjE)
  from rmatch_PlusD [OF a10] obtain n2 s8 where s7: "s7 = n2 @ s8" and n2: "n2 \<noteq> []"
    "\<forall>c\<in>set n2. isNumChar c"
    and a11: "rmatch
     [Mark, Star isSpace, Lit (CHR ''f''), Lit (CHR ''t''), Lit (CHR '')'')] s8 = Some (r, ms3)"
    by (elim exE conjE)
  from rmatch_MarkD [OF a11] obtain ms4 where ms3: "ms3 = s8 # ms4" and a12: "rmatch
     [Star isSpace, Lit (CHR ''f''), Lit (CHR ''t''), Lit (CHR '')'')] s8 = Some (r, ms4)"
    by (elim exE conjE)
  from rmatch_StarD [OF a12] obtain w3 s9 where s8: "s8 = w3 @ s9" and w3: "\<forall>c\<in>set w3. isSpace c"
    and a13: "rmatch [Lit (CHR ''f''), Lit (CHR ''t''), Lit (CHR '')'')] s9 = Some (r, ms4)"
    by (elim exE conjE)
  from rmatch_LitD [OF a13] obtain s10 where s9: "s9 = CHR ''f'' # s10"
    and a14: "rmatch [Lit (CHR ''t''), Lit (CHR '')'')] s10 = Some (r, ms4)"
    by (elim exE conjE)
  from rmatch_LitD [OF a14] obtain s11 where s10: "s10 = CHR ''t'' # s11"
    and a15: "rmatch [Lit (CHR '')'')] s11 = Some (r, ms4)"
    by (elim exE conjE)
  from rmatch_LitD [OF a15] obtain s12 where s11: "s11 = CHR '')'' # s12"
    and a16: "rmatch [] s12 = Some (r, ms4)"
    by (elim exE conjE)
  from rmatch_NilD [OF a16] have r: "r = s12" and ms4: "ms4 = []" by simp_all
  have whole: "s = (sg1 @ n1) @ w1 @ ''m'' @ w2 @ ''('' @ (sg2 @ n2) @ w3 @ ''ft)'' @ r"
    by (simp add: s s1 s2 s3 s4 s5 s6 s7 s8 s9 s10 s11 r)
  have g1: "between s s2 = sg1 @ n1"
    using between_append [of "sg1 @ n1" s2] by (simp add: s s1)
  have g2: "between s6 s8 = sg2 @ n2"
    using between_append [of "sg2 @ n2" s8] by (simp add: s6 s7)
  have grp: "groups ms = [sg1 @ n1, sg2 @ n2]"
    by (simp add: ms ms1 ms2 ms3 ms4 g1 g2)
  have sh1: "numeralShape (sg1 @ n1)"
    unfolding numeralShape_def using sg1 n1 by blast
  have sh2: "numeralShape (sg2 @ n2)"
    unfolding numeralShape_def using sg2 n2 by blast
  from whole grp sh1 sh2 w1 w2 w3 show ?thesis by blast
qed


lemma FindStringSubmatch_height:
  "FindStringSubmatch heightRegexp s = [] \<or>
   (\<exists>w a b. FindStringSubmatch heightRegexp s = [w, a, b] \<and> heightPatternOccurs s a b)"
proof (cases "findFrom heightRegexp s")
  case None
  then show ?thesis by (simp add: FindStringSubmatch_def)
next
  case (Some res)
  obtain start r ms where res: "res = (start, r, ms)" by (cases res)
  from findFromD [OF Some [unfolded res]] obtain pre where pre: "s = pre @ start"
    and m: "rmatch heightRegexp start = Some (r, ms)"
    by (elim exE conjE)
  from heightRegexp_sound [OF m] obtain a b w1 w2 w3 where
    st: "start = a @ w1 @ ''m'' @ w2 @ ''('' @ b @ w3 @ ''ft)'' @ r"
    and g: "groups ms = [a, b]" and sh: "numeralShape a" "numeralShape b"
    and w: "\<forall>c\<in>set w1. isSpace c" "\<forall>c\<in>set w2. isSpace c" "\<forall>c\<in>set w3. isSpace c"
    by (elim exE conjE)
  have "FindStringSubmatch heightRegexp s = [between start r, a, b]"
    by (simp add: FindStringSubmatch_def Some res g)
  moreover have "heightPatternOccurs s a b"
    unfolding heightPatternOccurs_def
    using pre st sh w by blast
  ultimately show ?thesis by blast
qed

lemma ParseFloat_valid:
  assumes "ParseFloat g = Inr v"
  shows "validDecimal g"
proof -
  define sign where "sign = (if g \<noteq> [] \<and> (hd g = CHR ''+'' \<or> hd g = CHR ''-'') then [hd g] else [])"
  define body where "body = (if g \<noteq> [] \<and> (hd g = CHR ''+'' \<or> hd g = CHR ''-'') then tl g else g)"
  define ip where "ip = takeWhile isDigit body"
  define r1 where "r1 = dropWhile isDigit body"
  define sawdot where "sawdot \<longleftrightarrow> r1 \<noteq> [] \<and> hd r1 = CHR ''.''"
  define fp where "fp = (if sawdot then takeWhile isDigit (tl r1) else [])"
  define r2 where "r2 = (if sawdot then dropWhile isDigit (tl r1) else r1)"
  have g: "g = sign @ body"
    unfolding sign_def body_def by (cases g) auto
  have sg: "sign = [] \<or> sign = ''+'' \<or> sign = ''-''"
    unfolding sign_def by auto
  have body: "body = ip @ r1"
    unfolding ip_def r1_def by simp
  have dig: "\<forall>c\<in>set (ip @ fp). isDigit c"
    unfolding ip_def fp_def by (auto dest: set_takeWhileD)
  from assms have ok: "\<not> (ip = [] \<and> fp = [])" "r2 = []"
    unfolding ParseFloat_def Let_def
      body_def [symmetric] ip_def [symmetric] r1_def [symmetric] sawdot_def [symmetric]
      fp_def [symmetric] r2_def [symmetric]
    by (auto split: if_splits)
  show ?thesis
  proof (cases sawdot)
    case True
    then have "r1 = CHR ''.'' # tl r1"
      unfolding sawdot_def by (cases r1) auto
    moreover have "tl r1 = fp @ r2"
      using True unfolding fp_def r2_def by simp
    ultimately have "g = sign @ ip @ ''.'' @ fp"
      using g body ok(2) by simp
    with sg dig ok(1) show ?thesis
      unfolding validDecimal_def by blast
  next
    case False
    then have "fp = []" "r1 = []"
      using ok(2) unfolding fp_def r2_def by simp_all
    then have "g = sign @ ip \<and> fp = []"
      using g body by simp
    with sg dig ok(1) show ?thesis
      unfolding validDecimal_def by blast
  qed
qed

lemma parseHeight_three:
  assumes "FindStringSubmatch heightRegexp s = [w, a, b]"
  shows "parseHeight s =
     (case ParseFloat a of
        Inl err \<Rightarrow> Inl err
      | Inr heightM \<Rightarrow>
          (case ParseFloat b of
             Inl err \<Rightarrow> Inl err
           | Inr heightFt \<Rightarrow> Inr (heightM, heightFt)))"
proof -
  have n: "[w, a, b] ! 1 = a" "[w, a, b] ! 2 = b" "\<not> length [w, a, b] < 3"
    by simp_all
  show ?thesis
    unfolding parseHeight_def Let_def assms n by simp
qed

lemma parseHeight_no_match:
  assumes "FindStringSubmatch heightRegexp s = []"
  shows "parseHeight s = Inl HeightNoMatch"
  unfolding parseHeight_def Let_def assms by simp

lemma parseHeight_invalid_numeral:
  assumes m: "FindStringSubmatch heightRegexp s = [w, a, b]"
    and inv: "\<not> validDecimal a \<or> \<not> validDecimal b"
  shows "\<exists>e. parseHeight s = Inl e"
proof (cases "ParseFloat a")
  case (Inl e)
  then show ?thesis unfolding parseHeight_three [OF m] by simp
next
  case (Inr x)
  note a = this
  show ?thesis
  proof (cases "ParseFloat b")
    case (Inl e)
    then show ?thesis unfolding parseHeight_three [OF m] a by simp
  next
    case (Inr y)
    from ParseFloat_valid [OF a] ParseFloat_valid [OF Inr] inv show ?thesis by simp
  qed
qed

lemma parseHeight_pattern_absent:
  assumes "\<not> (\<exists>a b. heightPatternOccurs s a b)"
  shows "parseHeight s = Inl HeightNoMatch"
proof -
  from FindStringSubmatch_height [of s] assms
  have "FindStringSubmatch heightRegexp s = []" by blast
  then show ?thesis by (rule parseHeight_no_match)
qed


lemma parseHeight_example_1: "parseHeight ''1.1 m (3.6 ft)'' = Inr (11 / 10, 36 / 10)"
  by code_simp

lemma parseHeight_example_2: "parseHeight ''-0.1 m (-0.3 ft)'' = Inr (- 1 / 10, - 3 / 10)"
  by code_simp

text \<open>
  C9. \<open>parseHeight\<close> reads "1.1 m (3.6 ft)" as (1.1, 3.6) and "-0.1 m (-0.3 ft)" as
  (-0.1, -0.3). What the pattern captures is an occurrence of the two-part pattern in
  the text. On every text in which the pattern does not occur it fails, and it fails
  whenever one of the two captured numerals is not a decimal numeral (an optional sign,
  digits with at most one point, at least one digit).
\<close>

theorem parseHeight_values_and_failures:
  "parseHeight ''1.1 m (3.6 ft)'' = Inr (11 / 10, 36 / 10) \<and>
   parseHeight ''-0.1 m (-0.3 ft)'' = Inr (- 1 / 10, - 3 / 10) \<and>
   (FindStringSubmatch heightRegexp s = [] \<or>
    (\<exists>w a b. FindStringSubmatch heightRegexp s = [w, a, b] \<and> heightPatternOccurs s a b)) \<and>
   (\<not> (\<exists>a b. heightPatternOccurs s a b) \<longrightarrow> parseHeight s = Inl HeightNoMatch) \<and>
   (\<forall>w a b. FindStringSubmatch heightRegexp s = [w, a, b] \<and>
        (\<not> validDecimal a \<or> \<not> validDecimal b) \<longrightarrow>
      (\<exists>e. parseHeight s = Inl e))"
proof (intro conjI allI impI)
  show "parseHeight ''1.1 m (3.6 ft)'' = Inr (11 / 10, 36 / 10)"
    by (rule parseHeight_example_1)
  show "parseHeight ''-0.1 m (-0.3 ft)'' = Inr (- 1 / 10, - 3 / 10)"
    by (rule parseHeight_example_2)
  show "FindStringSubmatch heightRegexp s = [] \<or>
    (\<exists>w a b. FindStringSubmatch heightRegexp s = [w, a, b] \<and> heightPatternOccurs s a b)"
    by (rule FindStringSubmatch_height)
next
  assume "\<not> (\<exists>a b. heightPatternOccurs s a b)"
  then show "parseHeight s = Inl HeightNoMatch"
    by (rule parseHeight_pattern_absent)
next
  fix w a b
  assume "FindStringSubmatch heightRegexp s = [w, a, b] \<and>
        (\<not> validDecimal a \<or> \<not> validDecimal b)"
  then show "\<exists>e. parseHeight s = Inl e"
    using parseHeight_invalid_numeral [of s w a b] by (elim conjE) simp
qed

lemma no_paren_no_pattern:
  assumes "CHR ''('' \<notin> set s"
  shows "\<not> (\<exists>a b. heightPatternOccurs s a b)"
proof
  assume "\<exists>a b. heightPatternOccurs s a b"
  then obtain a b pre w1 w2 w3 post where
    "s = pre @ a @ w1 @ ''m'' @ w2 @ ''('' @ b @ w3 @ ''ft)'' @ post"
    unfolding heightPatternOccurs_def by (elim exE conjE)
  then have "CHR ''('' \<in> set s" by simp
  with assms show False by simp
qed

lemma validDecimal_one_point:
  assumes "validDecimal g"
  shows "count_list g (CHR ''.'') \<le> 1"
proof -
  from assms obtain sign ip fp where
    g: "g = sign @ ip \<and> fp = [] \<or> g = sign @ ip @ ''.'' @ fp"
    and sg: "sign = [] \<or> sign = ''+'' \<or> sign = ''-''"
    and dig: "\<forall>c\<in>set (ip @ fp). isDigit c"
    unfolding validDecimal_def by (elim exE conjE)
  have nd: "\<not> isDigit (CHR ''.'')" by (simp add: isDigit_def)
  from dig nd have "CHR ''.'' \<notin> set ip" "CHR ''.'' \<notin> set fp" by auto
  then have 0: "count_list ip (CHR ''.'') = 0" "count_list fp (CHR ''.'') = 0"
    by (simp_all add: count_list_0_iff)
  from sg have 1: "count_list sign (CHR ''.'') = 0" by auto
  from g show ?thesis
  proof
    assume "g = sign @ ip \<and> fp = []"
    then show ?thesis using 0 1 by simp
  next
    assume "g = sign @ ip @ ''.'' @ fp"
    then show ?thesis using 0 1 by simp
  qed
qed

lemma two_points_invalid: "\<not> validDecimal ''1.2.3''"
proof
  assume "validDecimal ''1.2.3''"
  from validDecimal_one_point [OF this] show False by simp
qed

lemma FindStringSubmatch_two_points:
  "FindStringSubmatch heightRegexp ''1.2.3 m (4 ft)'' = [''1.2.3 m (4 ft)'', ''1.2.3'', ''4'']"
  by code_simp

theorem parseHeight_values_and_failures_witness:
  "\<not> (\<exists>a b. heightPatternOccurs ''bogus'' a b) \<and>
   parseHeight ''bogus'' = Inl HeightNoMatch \<and>
   FindStringSubmatch heightRegexp ''1.2.3 m (4 ft)'' = [''1.2.3 m (4 ft)'', ''1.2.3'', ''4''] \<and>
   \<not> validDecimal ''1.2.3'' \<and>
   (\<exists>e. parseHeight ''1.2.3 m (4 ft)'' = Inl e)"
proof -
  have a: "\<not> (\<exists>a b. heightPatternOccurs ''bogus'' a b)"
    by (rule no_paren_no_pattern) simp
  have 1: "parseHeight ''bogus'' = Inl HeightNoMatch"
    by (rule parseHeight_values_and_failures [of "''bogus''", THEN conjunct2, THEN conjunct2,
          THEN conjunct2, THEN conjunct1, rule_format, OF a])
  have b: "FindStringSubmatch heightRegexp ''1.2.3 m (4 ft)'' = [''1.2.3 m (4 ft)'', ''1.2.3'', ''4''] \<and>
      (\<not> validDecimal ''1.2.3'' \<or> \<not> validDecimal ''4'')"
    using FindStringSubmatch_two_points two_points_invalid by simp
  have 2: "\<exists>e. parseHeight ''1.2.3 m (4 ft)'' = Inl e"
    by (rule parseHeight_values_and_failures [of "''1.2.3 m (4 ft)''", THEN conjunct2,
          THEN conjunct2, THEN conjunct2, THEN conjunct2, rule_format, OF b])
  from a 1 FindStringSubmatch_two_points two_points_invalid 2 show ?thesis
    by (intro conjI)
qed

section \<open>Properties of the scraper\<close>

lemma parseRow_0: "parseRow date 0 cols = None"
  by (simp add: parseRow_def)

lemma parseRow_Suc: "parseRow date (Suc i) cols = parseRow date (Suc 0) cols"
  by (simp add: parseRow_def)

lemma eachRow_Suc:
  "eachRow date (Suc i) rows acc = acc @ List.map_filter (parseRow date (Suc 0)) rows"
proof (induction rows arbitrary: i acc)
  case Nil
  show ?case by (simp add: List.map_filter_simps)
next
  case (Cons cols rows)
  show ?case
  proof (cases "parseRow date (Suc 0) cols")
    case None
    then have "parseRow date (Suc i) cols = None" by (simp only: parseRow_Suc [of date i])
    then show ?thesis using None Cons.IH by (simp add: List.map_filter_simps)
  next
    case (Some data)
    then have "parseRow date (Suc i) cols = Some data" by (simp only: parseRow_Suc [of date i])
    then show ?thesis using Some Cons.IH by (simp add: List.map_filter_simps)
  qed
qed

lemma eachRow_0:
  "eachRow date 0 rows [] = List.map_filter (parseRow date (Suc 0)) (tl rows)"
proof (cases rows)
  case Nil
  then show ?thesis by (simp add: List.map_filter_simps)
next
  case (Cons cols rest)
  then show ?thesis using eachRow_Suc [of date 0 rest "[]"] by (simp add: parseRow_0)
qed

lemma parseRow_None_iff:
  "parseRow date (Suc i) cols = None \<longleftrightarrow> \<not> rowAccepted date cols"
proof (cases "length cols = 3")
  case False
  then show ?thesis by (simp add: parseRow_def rowAccepted_def)
next
  case True
  note len = this
  show ?thesis
  proof (cases "Contains (ToLower (TrimSpace (cols ! 0))) ''high'' \<or>
      Contains (ToLower (TrimSpace (cols ! 0))) ''low''")
    case False
    then show ?thesis using len by (simp add: parseRow_def rowAccepted_def)
  next
    case True
    note kind = this
    show ?thesis
    proof (cases "parseTimeWIB date (TrimSpace (cols ! 1))")
      case (Inl e)
      then show ?thesis using len kind by (simp add: parseRow_def rowAccepted_def Let_def)
    next
      case (Inr t)
      note t = this
      show ?thesis
      proof (cases "parseHeight (TrimSpace (cols ! 2))")
        case (Inl e)
        then show ?thesis using len kind t by (simp add: parseRow_def rowAccepted_def Let_def)
      next
        case (Inr h)
        then show ?thesis using len kind t
          by (cases h) (simp add: parseRow_def rowAccepted_def Let_def)
      qed
    qed
  qed
qed

lemma map_filter_length:
  "length (List.map_filter f xs) = length (filter (\<lambda>x. f x \<noteq> None) xs)"
  by (simp add: List.map_filter_def)

lemma Fetch_ok:
  assumes "resp = Response 200 (Some doc)"
    and "findDateText (divTexts doc) \<noteq> []"
    and "parseTideDate (findDateText (divTexts doc)) = Inr date"
  shows "Fetch resp =
     (if List.map_filter (parseRow date (Suc 0)) (tl (tableRows doc)) = [] then Inl NoTideData
      else Inr (List.map_filter (parseRow date (Suc 0)) (tl (tableRows doc)), date))"
  unfolding Fetch_def assms(1) using assms(2,3)
  by (simp add: Let_def eachRow_0)

lemma Fetch_nonempty: "Fetch resp \<noteq> Inr ([], date)"
  unfolding Fetch_def
  by (auto simp: Let_def split: httpResult.splits option.splits sum.splits if_splits)


lemma accepted_eq: "(\<lambda>cols. parseRow date (Suc 0) cols \<noteq> None) = rowAccepted date"
  by (rule ext) (simp add: parseRow_None_iff)

lemma accepted_length:
  "length (List.map_filter (parseRow date (Suc 0)) rows) = length (filter (rowAccepted date) rows)"
  by (simp only: map_filter_length accepted_eq)

text \<open>
  C7. \<open>Fetch\<close> never returns an empty batch. For a document that was fetched (status
  200, readable), whose header was found and its date read, the rows are judged one by
  one: a row fails when it is the header row, has not exactly three cells, names no tide
  kind, or its time or height does not parse, and a failing row is skipped. With no
  accepted row the scrape fails with \<open>NoTideData\<close>; with at least one it succeeds and
  returns one record per accepted row, in order.
\<close>

theorem Fetch_skips_bad_rows:
  assumes "resp = Response 200 (Some doc)"
    and "findDateText (divTexts doc) \<noteq> []"
    and "parseTideDate (findDateText (divTexts doc)) = Inr date"
  shows "(\<forall>r d. Fetch r \<noteq> Inr ([], d)) \<and>
         (\<forall>cols i. (parseRow date (Suc i) cols = None) = (\<not> rowAccepted date cols)) \<and>
         (filter (rowAccepted date) (tl (tableRows doc)) = [] \<longrightarrow> Fetch resp = Inl NoTideData) \<and>
         (filter (rowAccepted date) (tl (tableRows doc)) \<noteq> [] \<longrightarrow>
            Fetch resp = Inr (List.map_filter (parseRow date (Suc 0)) (tl (tableRows doc)), date) \<and>
            length (List.map_filter (parseRow date (Suc 0)) (tl (tableRows doc))) =
              length (filter (rowAccepted date) (tl (tableRows doc))))"
proof (intro conjI allI impI)
  fix r d
  show "Fetch r \<noteq> Inr ([], d)" by (rule Fetch_nonempty)
next
  fix cols i
  show "(parseRow date (Suc i) cols = None) = (\<not> rowAccepted date cols)"
    by (rule parseRow_None_iff)
next
  assume "filter (rowAccepted date) (tl (tableRows doc)) = []"
  then have "length (List.map_filter (parseRow date (Suc 0)) (tl (tableRows doc))) = 0"
    by (simp only: accepted_length) simp
  then have "List.map_filter (parseRow date (Suc 0)) (tl (tableRows doc)) = []"
    by simp
  then show "Fetch resp = Inl NoTideData"
    unfolding Fetch_ok [OF assms] by simp
next
  assume a: "filter (rowAccepted date) (tl (tableRows doc)) \<noteq> []"
  then have "length (List.map_filter (parseRow date (Suc 0)) (tl (tableRows doc))) \<noteq> 0"
    by (simp only: accepted_length) simp
  then have "List.map_filter (parseRow date (Suc 0)) (tl (tableRows doc)) \<noteq> []"
    by simp
  then show "Fetch resp = Inr (List.map_filter (parseRow date (Suc 0)) (tl (tableRows doc)), date)"
    unfolding Fetch_ok [OF assms] by simp
next
  show "length (List.map_filter (parseRow date (Suc 0)) (tl (tableRows doc))) =
              length (filter (rowAccepted date) (tl (tableRows doc)))"
    by (rule accepted_length)
qed

lemma tidePage_header: "findDateText (divTexts tidePage) \<noteq> []"
  by code_simp

lemma tidePage_date: "parseTideDate (findDateText (divTexts tidePage)) = Inr december4"
  by code_simp

lemma tidePage_rows:
  "List.map_filter (parseRow december4 (Suc 0)) (tl (tableRows tidePage)) = tidePageBatch"
  by code_simp

lemma pageWithoutTides_rows:
  "List.map_filter (parseRow december4 (Suc 0)) (tl (tableRows pageWithoutTides)) = []"
  by code_simp

theorem Fetch_skips_bad_rows_witness:
  "findDateText (divTexts tidePage) \<noteq> [] \<and>
   parseTideDate (findDateText (divTexts tidePage)) = Inr december4 \<and>
   length (filter (rowAccepted december4) (tl (tableRows tidePage))) = 2 \<and>
   Fetch (Response 200 (Some tidePage)) = Inr (tidePageBatch, december4) \<and>
   filter (rowAccepted december4) (tl (tableRows pageWithoutTides)) = [] \<and>
   Fetch (Response 200 (Some pageWithoutTides)) = Inl NoTideData"
proof -
  have n: "length (filter (rowAccepted december4) (tl (tableRows tidePage))) = 2"
    unfolding accepted_length [symmetric] tidePage_rows by (simp add: tidePageBatch_def)
  then have ne: "filter (rowAccepted december4) (tl (tableRows tidePage)) \<noteq> []"
    by auto
  note inst = Fetch_skips_bad_rows [OF refl tidePage_header tidePage_date]
  have "Fetch (Response 200 (Some tidePage)) =
      Inr (List.map_filter (parseRow december4 (Suc 0)) (tl (tableRows tidePage)), december4)"
    using inst [THEN conjunct2, THEN conjunct2, THEN conjunct2, rule_format, OF ne]
    by (rule conjunct1)
  then have 1: "Fetch (Response 200 (Some tidePage)) = Inr (tidePageBatch, december4)"
    by (simp only: tidePage_rows)
  have d: "divTexts pageWithoutTides = divTexts tidePage"
    by (simp add: pageWithoutTides_def)
  have "length (filter (rowAccepted december4) (tl (tableRows pageWithoutTides))) = 0"
    unfolding accepted_length [symmetric] pageWithoutTides_rows by simp
  then have e: "filter (rowAccepted december4) (tl (tableRows pageWithoutTides)) = []"
    by simp
  have 2: "Fetch (Response 200 (Some pageWithoutTides)) = Inl NoTideData"
    by (rule Fetch_skips_bad_rows [OF refl tidePage_header [folded d] tidePage_date [folded d],
          THEN conjunct2, THEN conjunct2, THEN conjunct1, rule_format, OF e])
  from tidePage_header tidePage_date n 1 e 2 show ?thesis by (intro conjI)
qed

section \<open>Properties of the synchronizer\<close>

lemma insertAll_ok:
  "(\<forall>i<length ds. \<not> failCreate tx (n + i)) \<Longrightarrow>
     insertAll tx n ds = (tx\<lparr>tide_data := tide_data tx @ ds\<rparr>, n + length ds, None)"
proof (induction ds arbitrary: tx n)
  case Nil
  show ?case by simp
next
  case (Cons d ds)
  from Cons.prems have d: "\<not> failCreate tx n" by force
  let ?tx = "tx\<lparr>tide_data := tide_data tx @ [d]\<rparr>"
  have "\<forall>i<length ds. \<not> failCreate ?tx (Suc n + i)"
  proof (intro allI impI)
    fix i assume "i < length ds"
    then have "Suc i < length (d # ds)" by simp
    with Cons.prems have "\<not> failCreate tx (n + Suc i)" by blast
    then show "\<not> failCreate ?tx (Suc n + i)" by simp
  qed
  from Cons.IH [OF this] have "insertAll ?tx (Suc n) ds =
      (?tx\<lparr>tide_data := tide_data ?tx @ ds\<rparr>, Suc n + length ds, None)" .
  then show ?case using d by (simp add: createRow_def)
qed

lemma insertAll_fail:
  "(\<exists>i<length ds. failCreate tx (n + i)) \<Longrightarrow>
     \<exists>tx' c. insertAll tx n ds = (tx', c, Some InsertFailed)"
proof (induction ds arbitrary: tx n)
  case Nil
  then show ?case by simp
next
  case (Cons d ds)
  show ?case
  proof (cases "failCreate tx n")
    case True
    then show ?thesis by (simp add: createRow_def)
  next
    case False
    let ?tx = "tx\<lparr>tide_data := tide_data tx @ [d]\<rparr>"
    from Cons.prems obtain i where i: "i < length (d # ds)" "failCreate tx (n + i)" by blast
    with False have "i \<noteq> 0" by (cases i) auto
    then obtain j where j: "i = Suc j" by (cases i) auto
    with i have "j < length ds" "failCreate ?tx (Suc n + j)" by simp_all
    then have "\<exists>j<length ds. failCreate ?tx (Suc n + j)" by blast
    from Cons.IH [OF this] show ?thesis using False by (simp add: createRow_def)
  qed
qed

lemma replaceDay_begin:
  assumes "batch \<noteq> []" and "failBegin database"
  shows "replaceDay database batch date = (database, 0, Some BeginFailed)"
  using assms by (simp add: replaceDay_def Transaction_def)

lemma replaceDay_delete:
  assumes "batch \<noteq> []" and "\<not> failBegin database" and "failDelete database"
  shows "replaceDay database batch date = (database, 0, Some DeleteFailed)"
  using assms by (simp add: replaceDay_def Transaction_def deleteWhere_def)

lemma replaceDay_insert:
  assumes "batch \<noteq> []" and "\<not> failBegin database"
    and "\<not> failDelete database" and "\<exists>i<length batch. failCreate database i"
  shows "replaceDay database batch date = (database, 0, Some InsertFailed)"
proof -
  let ?tx = "database\<lparr>tide_data := filter (\<lambda>t. \<not> (Location t = TideLocation \<and>
      Date t = date)) (tide_data database)\<rparr>"
  from assms(4) have "\<exists>i<length batch. failCreate ?tx (0 + i)" by simp
  from insertAll_fail [OF this] obtain tx' c where
    "insertAll ?tx 0 batch = (tx', c, Some InsertFailed)" by blast
  then show ?thesis
    using assms(1,2,3) by (simp add: replaceDay_def Transaction_def deleteWhere_def)
qed

lemma replaceDay_inserted:
  assumes "batch \<noteq> []" and "\<not> failBegin database"
    and "\<not> failDelete database" and "\<forall>i<length batch. \<not> failCreate database i"
  shows "replaceDay database batch date =
     (if failCommit database then (database, 0, Some CommitFailed)
      else (database\<lparr>tide_data := filter (\<lambda>t. \<not> (Location t = TideLocation \<and>
              Date t = date)) (tide_data database) @ batch\<rparr>, length batch, None))"
proof -
  let ?tx = "database\<lparr>tide_data := filter (\<lambda>t. \<not> (Location t = TideLocation \<and>
      Date t = date)) (tide_data database)\<rparr>"
  from assms(4) have "\<forall>i<length batch. \<not> failCreate ?tx (0 + i)" by simp
  from insertAll_ok [OF this] have
    "insertAll ?tx 0 batch = (?tx\<lparr>tide_data := tide_data ?tx @ batch\<rparr>, 0 + length batch, None)" .
  then show ?thesis
    using assms(1,2,3) by (simp add: replaceDay_def Transaction_def deleteWhere_def)
qed

lemma FetchAndStore_replaceDay:
  assumes "Fetch resp = Inr (batch, date)"
  shows "FetchAndStore database resp = replaceDay database batch (instantOf date)"
  by (simp add: FetchAndStore_def assms)

text \<open>
  C6. The day replace is atomic. For every non-empty batch and date: if the transaction
  cannot begin, the delete fails, any insert fails or the commit fails, the call returns
  count 0 with the error and the database is exactly what it was before the call;
  otherwise it returns the number of rows inserted, which is the length of the batch,
  and the table holds the rows of other days and locations followed by the batch.
  \<open>FetchAndStore\<close> is this day replace on the batch and date that \<open>Fetch\<close> returned.
\<close>

theorem replaceDay_atomic:
  assumes "batch \<noteq> []"
  shows "(failBegin database \<or> failDelete database \<or> (\<exists>i<length batch. failCreate database i) \<or>
            failCommit database \<longrightarrow>
            (\<exists>e. replaceDay database batch date = (database, 0, Some e))) \<and>
         (\<not> failBegin database \<and> \<not> failDelete database \<and>
            (\<forall>i<length batch. \<not> failCreate database i) \<and> \<not> failCommit database \<longrightarrow>
            replaceDay database batch date =
              (database\<lparr>tide_data := filter (\<lambda>t. \<not> (Location t = TideLocation \<and>
                  Date t = date)) (tide_data database) @ batch\<rparr>,
               length batch, None)) \<and>
         (\<forall>resp day. Fetch resp = Inr (batch, day) \<longrightarrow>
            FetchAndStore database resp = replaceDay database batch (instantOf day))"
proof (intro conjI impI allI)
  assume f: "failBegin database \<or> failDelete database \<or>
      (\<exists>i<length batch. failCreate database i) \<or> failCommit database"
  show "\<exists>e. replaceDay database batch date = (database, 0, Some e)"
  proof (cases "failBegin database")
    case True
    from replaceDay_begin [OF assms True] show ?thesis by (intro exI)
  next
    case False
    note b = this
    show ?thesis
    proof (cases "failDelete database")
      case True
      from replaceDay_delete [OF assms b True] show ?thesis by (intro exI)
    next
      case False
      note d = this
      show ?thesis
      proof (cases "\<exists>i<length batch. failCreate database i")
        case True
        from replaceDay_insert [OF assms b d True] show ?thesis by (intro exI)
      next
        case False
        then have n: "\<forall>i<length batch. \<not> failCreate database i" by blast
        from f b d False have "failCommit database" by blast
        with replaceDay_inserted [OF assms b d n] show ?thesis by simp
      qed
    qed
  qed
next
  assume "\<not> failBegin database \<and> \<not> failDelete database \<and>
      (\<forall>i<length batch. \<not> failCreate database i) \<and> \<not> failCommit database"
  then have b: "\<not> failBegin database" and d: "\<not> failDelete database"
    and n: "\<forall>i<length batch. \<not> failCreate database i" and c: "\<not> failCommit database"
    by simp_all
  from replaceDay_inserted [OF assms b d n] c
  show "replaceDay database batch date =
      (database\<lparr>tide_data := filter (\<lambda>t. \<not> (Location t = TideLocation \<and>
          Date t = date)) (tide_data database) @ batch\<rparr>,
       length batch, None)"
    by simp
next
  fix resp day
  assume "Fetch resp = Inr (batch, day)"
  then show "FetchAndStore database resp = replaceDay database batch (instantOf day)"
    by (rule FetchAndStore_replaceDay)
qed

lemma tidePage_fetch: "Fetch (Response 200 (Some tidePage)) = Inr (tidePageBatch, december4)"
  using Fetch_ok [OF refl tidePage_header tidePage_date]
  by (simp add: tidePage_rows tidePageBatch_def)

lemma december4_instant: "instantOf december4 = 1764781200000000000"
  by (simp add: instantOf_def december4_def timeDate_def norm_def daysSinceEpoch_def
      daysBefore_def isLeap_def wibTimezone_def)

theorem replaceDay_atomic_witness:
  "tidePageBatch \<noteq> [] \<and>
   (\<exists>i<length tidePageBatch. failCreate secondInsertFails i) \<and>
   (\<exists>e. replaceDay secondInsertFails tidePageBatch 1764781200000000000 =
      (secondInsertFails, 0, Some e)) \<and>
   replaceDay (storeOf [otherDayTide, oldTide] False) tidePageBatch 1764781200000000000 =
      (storeOf (otherDayTide # tidePageBatch) False, 2, None) \<and>
   FetchAndStore (storeOf [otherDayTide, oldTide] False) (Response 200 (Some tidePage)) =
      (storeOf (otherDayTide # tidePageBatch) False, 2, None)"
proof -
  have ne: "tidePageBatch \<noteq> []" by (simp add: tidePageBatch_def)
  note inst = replaceDay_atomic [OF ne]
  have f: "\<exists>i<length tidePageBatch. failCreate secondInsertFails i"
    by (rule exI [of _ 1]) (simp add: tidePageBatch_def secondInsertFails_def)
  then have "failBegin secondInsertFails \<or> failDelete secondInsertFails \<or>
      (\<exists>i<length tidePageBatch. failCreate secondInsertFails i) \<or> failCommit secondInsertFails"
    by (intro disjI2 disjI1)
  from inst [of secondInsertFails 1764781200000000000, THEN conjunct1, rule_format, OF this]
  have 1: "\<exists>e. replaceDay secondInsertFails tidePageBatch 1764781200000000000 =
      (secondInsertFails, 0, Some e)" .
  let ?db = "storeOf [otherDayTide, oldTide] False"
  have ok: "\<not> failBegin ?db \<and> \<not> failDelete ?db \<and>
      (\<forall>i<length tidePageBatch. \<not> failCreate ?db i) \<and> \<not> failCommit ?db"
    by (simp add: storeOf_def)
  from inst [of ?db 1764781200000000000, THEN conjunct2, THEN conjunct1, rule_format, OF ok]
  have 2: "replaceDay ?db tidePageBatch 1764781200000000000 =
      (storeOf (otherDayTide # tidePageBatch) False, 2, None)"
    by (simp add: storeOf_def otherDayTide_def oldTide_def TideLocation_def tidePageBatch_def)
  from inst [of ?db 0, THEN conjunct2, THEN conjunct2, rule_format, OF tidePage_fetch]
  have 3: "FetchAndStore ?db (Response 200 (Some tidePage)) =
      (storeOf (otherDayTide # tidePageBatch) False, 2, None)"
    by (simp only: december4_instant 2)
  from ne f 1 2 3 show ?thesis by (intro conjI)
qed

section \<open>The time window of the query on the SQLite store\<close>

text \<open>
  The comment of \<^verbatim>\<open>calculateTidalFloodRisk\<close> asks for a high tide whose \<^verbatim>\<open>tide_time\<close>
  overlaps the alert period, and the later copy of the fetcher in the sources converts
  every tide time to UTC before storing it ("for accurate comparisons", "required for SQLite
  compatibility"). \<^verbatim>\<open>pkg/fetcher/tidal_flood.go\<close> stores the times in WIB; the store then
  compares the text of a wall clock at +07:00 with the texts of the alert's times in
  their own location, and the window of the query is no longer the window of instants.
\<close>

lemma stormAlertUTC_heavy: "hasHeavyRain stormAlertUTC"
  by code_simp

lemma stormAlertWIB_heavy: "hasHeavyRain stormAlertWIB"
  by code_simp

lemma eveningAlertUTC_heavy: "hasHeavyRain eveningAlertUTC"
  by code_simp

text \<open>
  The wall clock read back from the instant of a date is that date: \<open>wallClock\<close> and
  \<open>timeDate\<close> agree on it.
\<close>

lemma wallClock_december4:
  "wallClock \<lparr>unixNano = instantOf december4, locOffset = wibTimezone\<rparr> = december4"
  by code_simp

lemma wallClock_december31:
  "wallClock \<lparr>unixNano = instantOf december31, locOffset = wibTimezone\<rparr> = december31"
  by code_simp

text \<open>What \<open>FetchAndStore\<close> leaves in an empty store from the page \<open>tidePage\<close>.\<close>

lemma tidePage_stored:
  "FetchAndStore (storeOf [] False) (Response 200 (Some tidePage)) =
     (storeOf tidePageBatch False, 2, None)"
proof -
  have ne: "tidePageBatch \<noteq> []" by (simp add: tidePageBatch_def)
  let ?db = "storeOf [] False"
  have b: "\<not> failBegin ?db" and d: "\<not> failDelete ?db"
    and n: "\<forall>i<length tidePageBatch. \<not> failCreate ?db i" and c: "\<not> failCommit ?db"
    by (simp_all add: storeOf_def)
  from replaceDay_inserted [OF ne b d n, of 1764781200000000000] c
  have "replaceDay ?db tidePageBatch 1764781200000000000 =
      (storeOf tidePageBatch False, 2, None)"
    by (simp add: storeOf_def tidePageBatch_def)
  with FetchAndStore_replaceDay [OF tidePage_fetch, of "storeOf [] False"]
  show ?thesis by (simp only: december4_instant)
qed

text \<open>
  C1. The claim fails on the code. The store that \<open>FetchAndStore\<close> fills from a page with
  a high tide of 2.8 m at 03:12 WIB on 2025-12-04 (20:12 UTC on 2025-12-03) is asked
  about an advisory of heavy rain from 20:00 to 22:00 UTC on 2025-12-03 whose times are
  in UTC. The observation qualifies (kind High, above 2.6 m, its instant within
  \<open>[effective, expires]\<close>), so the claim gives level High. The query compares the stored
  text "2025-12-04 03:12:00+07:00" with the texts "2025-12-03 20:00:00+00:00" and
  "2025-12-04 00:00:00+00:00" of its bounds, finds no row, and the verdict is level
  \<open>none\<close> with \<open>HasRisk\<close> false. For the same advisory with its times in WIB the verdict
  is \<open>high\<close>.
\<close>

theorem qualifying_tide_not_found:
  "FetchAndStore (storeOf [] False) (Response 200 (Some tidePage)) =
     (storeOf tidePageBatch False, 2, None) \<and>
   hasHeavyRain stormAlertUTC \<and>
   hd tidePageBatch \<in> set (tide_data (storeOf tidePageBatch False)) \<and>
   qualifying stormAlertUTC (hd tidePageBatch) \<and>
   unixNano (TideTime (hd tidePageBatch)) \<le> unixNano (Expires stormAlertUTC) \<and>
   timestampText (TideTime (hd tidePageBatch)) = ''2025-12-04 03:12:00+07:00'' \<and>
   timestampText (Effective stormAlertUTC) = ''2025-12-03 20:00:00+00:00'' \<and>
   timestampText (Add (Expires stormAlertUTC) tideBufferDuration) =
     ''2025-12-04 00:00:00+00:00'' \<and>
   findTides (storeOf tidePageBatch False) TideTypeHigh 2.6 (Effective stormAlertUTC)
     (Add (Expires stormAlertUTC) tideBufferDuration) = Inr [] \<and>
   calculateTidalFloodRisk (storeOf tidePageBatch False) stormAlertUTC 0 =
     \<lparr>HasRisk = False, RiskLevel = ''none'', RiskTideType = [], RiskTideTime = 0,
      TideHeightM = 0, HeavyRain = True,
      Message = ''No tidal flood risk: No high tide (>2.6m) during or near alert period''\<rparr> \<and>
   qualifying stormAlertWIB (hd tidePageBatch) \<and>
   RiskLevel (calculateTidalFloodRisk (storeOf tidePageBatch False) stormAlertWIB 0) = ''high''"
proof (intro conjI)
  show "FetchAndStore (storeOf [] False) (Response 200 (Some tidePage)) =
     (storeOf tidePageBatch False, 2, None)"
    by (rule tidePage_stored)
  show "hasHeavyRain stormAlertUTC"
    by (rule stormAlertUTC_heavy)
  show "hd tidePageBatch \<in> set (tide_data (storeOf tidePageBatch False))"
    by (simp add: storeOf_def tidePageBatch_def)
  show "qualifying stormAlertUTC (hd tidePageBatch)"
    by (simp add: qualifying_def stormAlertUTC_def tidePageBatch_def)
  show "unixNano (TideTime (hd tidePageBatch)) \<le> unixNano (Expires stormAlertUTC)"
    by (simp add: stormAlertUTC_def tidePageBatch_def)
  show "timestampText (TideTime (hd tidePageBatch)) = ''2025-12-04 03:12:00+07:00''"
    by code_simp
  show "timestampText (Effective stormAlertUTC) = ''2025-12-03 20:00:00+00:00''"
    by code_simp
  show "timestampText (Add (Expires stormAlertUTC) tideBufferDuration) =
     ''2025-12-04 00:00:00+00:00''"
    by code_simp
  show "findTides (storeOf tidePageBatch False) TideTypeHigh 2.6 (Effective stormAlertUTC)
     (Add (Expires stormAlertUTC) tideBufferDuration) = Inr []"
    by code_simp
  show "calculateTidalFloodRisk (storeOf tidePageBatch False) stormAlertUTC 0 =
     \<lparr>HasRisk = False, RiskLevel = ''none'', RiskTideType = [], RiskTideTime = 0,
      TideHeightM = 0, HeavyRain = True,
      Message = ''No tidal flood risk: No high tide (>2.6m) during or near alert period''\<rparr>"
    by code_simp
  show "qualifying stormAlertWIB (hd tidePageBatch)"
    by (simp add: qualifying_def stormAlertWIB_def tidePageBatch_def)
  show "RiskLevel (calculateTidalFloodRisk (storeOf tidePageBatch False) stormAlertWIB 0) = ''high''"
    by code_simp
qed

text \<open>
  C4. The claim fails on the code. A store holds two qualifying observations for an
  advisory of heavy rain from 15:00 to 22:00 UTC on 2025-12-03 whose times are in UTC:
  2.7 m at 23:00 WIB on 2025-12-03 and 2.9 m at 03:12 WIB on 2025-12-04, both high tides
  within \<open>[effective, expires]\<close> as instants. The claim has the verdict cite the 2.9 m
  one. The text "2025-12-04 03:12:00+07:00" of the 2.9 m observation is greater than the
  text "2025-12-04 00:00:00+00:00" of the upper bound, so the query returns the 2.7 m
  observation alone and the verdict cites it.
\<close>

theorem lower_tide_cited:
  "hasHeavyRain eveningAlertUTC \<and>
   \<not> failFind (storeOf [nightTide, dawnTide] False) \<and>
   filter (qualifying eveningAlertUTC) (tide_data (storeOf [nightTide, dawnTide] False)) =
     [nightTide, dawnTide] \<and>
   HeightM nightTide = 27 / 10 \<and> HeightM dawnTide = 29 / 10 \<and>
   timestampText (TideTime nightTide) = ''2025-12-03 23:00:00+07:00'' \<and>
   timestampText (TideTime dawnTide) = ''2025-12-04 03:12:00+07:00'' \<and>
   timestampText (Effective eveningAlertUTC) = ''2025-12-03 15:00:00+00:00'' \<and>
   timestampText (Add (Expires eveningAlertUTC) tideBufferDuration) =
     ''2025-12-04 00:00:00+00:00'' \<and>
   findTides (storeOf [nightTide, dawnTide] False) TideTypeHigh 2.6 (Effective eveningAlertUTC)
     (Add (Expires eveningAlertUTC) tideBufferDuration) = Inr [nightTide] \<and>
   calculateTidalFloodRisk (storeOf [nightTide, dawnTide] False) eveningAlertUTC 0 =
     \<lparr>HasRisk = True, RiskLevel = ''high'', RiskTideType = ''high'',
      RiskTideTime = unixNano (TideTime nightTide), TideHeightM = 27 / 10, HeavyRain = True,
      Message = ''HIGH RISK: Heavy rain expected during high tide (>2.6m) - Flash flood possible!''\<rparr>"
proof (intro conjI)
  show "hasHeavyRain eveningAlertUTC"
    by (rule eveningAlertUTC_heavy)
  show "\<not> failFind (storeOf [nightTide, dawnTide] False)"
    by (simp add: storeOf_def)
  show "filter (qualifying eveningAlertUTC) (tide_data (storeOf [nightTide, dawnTide] False)) =
     [nightTide, dawnTide]"
    by (simp add: storeOf_def qualifying_def eveningAlertUTC_def nightTide_def dawnTide_def)
  show "HeightM nightTide = 27 / 10"
    by (simp add: nightTide_def)
  show "HeightM dawnTide = 29 / 10"
    by (simp add: dawnTide_def)
  show "timestampText (TideTime nightTide) = ''2025-12-03 23:00:00+07:00''"
    by code_simp
  show "timestampText (TideTime dawnTide) = ''2025-12-04 03:12:00+07:00''"
    by code_simp
  show "timestampText (Effective eveningAlertUTC) = ''2025-12-03 15:00:00+00:00''"
    by code_simp
  show "timestampText (Add (Expires eveningAlertUTC) tideBufferDuration) =
     ''2025-12-04 00:00:00+00:00''"
    by code_simp
  show "findTides (storeOf [nightTide, dawnTide] False) TideTypeHigh 2.6 (Effective eveningAlertUTC)
     (Add (Expires eveningAlertUTC) tideBufferDuration) = Inr [nightTide]"
    by code_simp
  show "calculateTidalFloodRisk (storeOf [nightTide, dawnTide] False) eveningAlertUTC 0 =
     \<lparr>HasRisk = True, RiskLevel = ''high'', RiskTideType = ''high'',
      RiskTideTime = unixNano (TideTime nightTide), TideHeightM = 27 / 10, HeavyRain = True,
      Message = ''HIGH RISK: Heavy rain expected during high tide (>2.6m) - Flash flood possible!''\<rparr>"
    by code_simp
qed

end
